theory Spec2Isabelle
  imports Main "HOL-Library.Word" "HOL-Library.AList"
begin

unbundle bit_operations_syntax

section \<open>The WebSocket gateway: connection plane\<close>

text \<open>
  A shallow embedding of the Go packages \<^verbatim>\<open>internal/connection\<close> (client.go,
  shard.go, manager.go), \<^verbatim>\<open>internal/pubsub\<close> (redis.go), \<^verbatim>\<open>internal/server\<close>
  (websocket.go) and \<^verbatim>\<open>internal/config\<close> (config.go).

  Conventions. A Go \<^verbatim>\<open>string\<close> or \<^verbatim>\<open>[]byte\<close> is a \<open>string\<close> (a list of bytes).
  A \<^verbatim>\<open>time.Time\<close> and a \<^verbatim>\<open>time.Duration\<close> are integers (nanoseconds). A Go map is an
  association list with distinct keys: \<open>map_of\<close> reads it, \<open>AList.update\<close> assigns,
  \<open>AList.delete\<close> deletes. A \<^verbatim>\<open>*Client\<close> is an address into an explicit store, since the
  two indexes of a shard hold pointers to the same objects. A Go \<^verbatim>\<open>error\<close> result is an
  \<open>error option\<close> (\<open>None\<close> is \<^verbatim>\<open>nil\<close>); a run-time panic is an error value of its own.
  The clock, the generated UUID and the answers of the limiters whose code is not in
  the sources are arguments of the operation that consults them.
\<close>

type_synonym bytes = string
type_synonym time = int
type_synonym duration = int
type_synonym ref = nat

datatype error =
    ErrClientClosed
  | ErrClientSlow
  | ErrGlobalLimit
  | ErrIPLimit
  | ErrClientNotFound
  | ErrUserLimit
  | PanicSendOnClosedChannel
  | PanicIndexOutOfRange
  | PanicNilDereference

subsection \<open>client.go\<close>

record ClientMetrics =
  MessagesSent :: int
  MessagesReceived :: int
  BytesSent :: int
  BytesReceived :: int
  LastPingTime :: time

text \<open>
  \<open>Send\<close> holds the buffered elements of the channel \<^verbatim>\<open>c.Send\<close>, oldest first;
  \<open>Send_closed\<close> says that \<^verbatim>\<open>close(c.Send)\<close> has run, \<open>ctx_done\<close> that \<^verbatim>\<open>c.cancel()\<close>
  has run, \<open>Conn_closed\<close> that \<^verbatim>\<open>c.Conn.Close()\<close> has run. \<open>RateLimiter\<close> keeps the
  two arguments of \<^verbatim>\<open>rate.NewLimiter\<close>.
\<close>

record Client =
  ID :: string
  UserID :: string
  DeviceID :: string
  IP :: string
  Conn_closed :: bool
  Send :: "bytes list"
  Send_closed :: bool
  RateLimiter :: "int \<times> int"
  ConnectedAt :: time
  LastActivity :: time
  ShardID :: "32 word"
  ctx_done :: bool
  authenticated :: bool
  closing :: bool
  metrics :: ClientMetrics

definition SendCapacity :: nat where
  "SendCapacity = 256"

definition NewClient :: "string \<Rightarrow> string \<Rightarrow> 32 word \<Rightarrow> int \<Rightarrow> int \<Rightarrow> time \<Rightarrow> Client" where
  "NewClient clientID ip shardID rateLimit burst now =
     \<lparr> ID = clientID, UserID = [], DeviceID = [], IP = ip,
       Conn_closed = False, Send = [], Send_closed = False,
       RateLimiter = (rateLimit, burst),
       ConnectedAt = now, LastActivity = now, ShardID = shardID,
       ctx_done = False, authenticated = False, closing = False,
       metrics = \<lparr> MessagesSent = 0, MessagesReceived = 0, BytesSent = 0,
                   BytesReceived = 0, LastPingTime = 0 \<rparr> \<rparr>"

definition SetAuthenticated :: "Client \<Rightarrow> string \<Rightarrow> string \<Rightarrow> Client" where
  "SetAuthenticated c userID deviceID =
     c\<lparr> UserID := userID, DeviceID := deviceID, authenticated := True \<rparr>"

definition IsAuthenticated :: "Client \<Rightarrow> bool" where
  "IsAuthenticated c = authenticated c"

text \<open>
  \<^verbatim>\<open>WriteMessage\<close>: the guard on \<^verbatim>\<open>c.closing\<close>, then a \<^verbatim>\<open>select\<close> with a \<^verbatim>\<open>default\<close>
  branch, which never blocks: the send is taken when the buffer has room, the default
  when it is full. A send on a closed channel panics in Go.
\<close>

definition WriteMessage :: "Client \<Rightarrow> bytes \<Rightarrow> error option \<times> Client" where
  "WriteMessage c message =
     (if closing c then (Some ErrClientClosed, c)
      else if Send_closed c then (Some PanicSendOnClosedChannel, c)
      else if length (Send c) < SendCapacity then
        (None, c\<lparr> Send := Send c @ [message],
                  metrics := (metrics c)\<lparr> MessagesSent := MessagesSent (metrics c) + 1,
                      BytesSent := BytesSent (metrics c) + int (length message) \<rparr> \<rparr>)
      else (Some ErrClientSlow, c))"

definition Close :: "Client \<Rightarrow> string \<Rightarrow> Client" where
  "Close c reason =
     (if closing c then c
      else c\<lparr> closing := True, ctx_done := True, Send_closed := True, Conn_closed := True \<rparr>)"

definition cleanup :: "Client \<Rightarrow> Client" where
  "cleanup c =
     (if \<not> closing c
      then c\<lparr> closing := True, ctx_done := True, Send_closed := True, Conn_closed := True \<rparr>
      else c)"

text \<open>
  The session invariant: the channel is closed exactly when \<^verbatim>\<open>closing\<close> is set (both are
  written in one critical section of \<^verbatim>\<open>Close\<close> and \<^verbatim>\<open>cleanup\<close>, and nowhere else), and
  the buffer never holds more than its capacity.
\<close>

definition client_inv :: "Client \<Rightarrow> bool" where
  "client_inv c = ((Send_closed c = closing c) \<and> length (Send c) \<le> SendCapacity)"

subsection \<open>config.go\<close>

text \<open>The keys of \<^verbatim>\<open>Config\<close> that the modelled code reads, one field per key.\<close>

record Config =
  Server_MaxMessageSize :: int
  Server_PongWait :: duration
  Server_MaxConnsPerIP :: int
  Auth_JWTSecret :: string
  Auth_TokenExpiry :: duration
  Cluster_NodeID :: string
  RateLimit_MessagesPerSecond :: int
  RateLimit_Burst :: int
  RateLimit_ConnectionsPerUser :: int
  RateLimit_GlobalConnections :: int
  Sharding_ShardCount :: int

definition second :: duration where
  "second = 1000000000"

text \<open>
  \<^verbatim>\<open>setDefaults\<close>: the values viper falls back to. The JWT secret and the token expiry
  have no default; the node id defaults to host name and process id, an argument here.
\<close>

definition setDefaults :: "string \<Rightarrow> Config" where
  "setDefaults node =
     \<lparr> Server_MaxMessageSize = 512 * 1024,
       Server_PongWait = 60 * second,
       Server_MaxConnsPerIP = 10,
       Auth_JWTSecret = [],
       Auth_TokenExpiry = 0,
       Cluster_NodeID = node,
       RateLimit_MessagesPerSecond = 100,
       RateLimit_Burst = 150,
       RateLimit_ConnectionsPerUser = 5,
       RateLimit_GlobalConnections = 1000000,
       Sharding_ShardCount = 64 \<rparr>"

datatype config_error =
    JWTSecretRequired
  | MaxMessageSizeTooLarge
  | ShardCountNotPositive
  | GlobalConnectionsNotPositive

definition validateConfig :: "Config \<Rightarrow> config_error option" where
  "validateConfig cfg =
     (if Auth_JWTSecret cfg = [] then Some JWTSecretRequired
      else if Server_MaxMessageSize cfg > 10 * 1024 * 1024 then Some MaxMessageSizeTooLarge
      else if Sharding_ShardCount cfg \<le> 0 then Some ShardCountNotPositive
      else if RateLimit_GlobalConnections cfg \<le> 0 then Some GlobalConnectionsNotPositive
      else None)"

subsection \<open>shard.go\<close>

record ShardStats =
  TotalConnections :: int
  ActiveConnections :: int
  Disconnections :: int
  MessagesProcessed :: int
  BytesProcessed :: int
  LastCleanup :: time

record Shard =
  shard_ID :: "32 word"
  clients :: "(string \<times> ref) list"
  userClients :: "(string \<times> (string \<times> ref) list) list"
  stats :: ShardStats

type_synonym store = "ref \<Rightarrow> Client option"

definition NewShard :: "32 word \<Rightarrow> Shard" where
  "NewShard sid =
     \<lparr> shard_ID = sid, clients = [], userClients = [],
       stats = \<lparr> TotalConnections = 0, ActiveConnections = 0, Disconnections = 0,
                 MessagesProcessed = 0, BytesProcessed = 0, LastCleanup = 0 \<rparr> \<rparr>"

text \<open>\<^verbatim>\<open>AddClient\<close> reads \<^verbatim>\<open>client.ID\<close> through the pointer.\<close>

definition Shard_AddClient :: "store \<Rightarrow> Shard \<Rightarrow> ref \<Rightarrow> error + Shard" where
  "Shard_AddClient h s client =
     (case h client of
        None \<Rightarrow> Inl PanicNilDereference
      | Some c \<Rightarrow>
          Inr (s\<lparr> clients := AList.update (ID c) client (clients s),
                  stats := (stats s)\<lparr> TotalConnections := TotalConnections (stats s) + 1,
                      ActiveConnections := ActiveConnections (stats s) + 1 \<rparr> \<rparr>))"

text \<open>
  The block that \<^verbatim>\<open>RemoveClient\<close> and \<^verbatim>\<open>CleanupInactive\<close> both contain: when the
  client's \<^verbatim>\<open>UserID\<close> is not empty and the user has a device map, delete the entry under
  the client's \<^verbatim>\<open>DeviceID\<close>, and the user's map when that leaves it empty.
\<close>

definition delete_user_mapping :: "Shard \<Rightarrow> Client \<Rightarrow> Shard" where
  "delete_user_mapping s c =
     (if UserID c \<noteq> [] then
        (case map_of (userClients s) (UserID c) of
           Some devices \<Rightarrow>
             (if AList.delete (DeviceID c) devices = []
              then s\<lparr> userClients := AList.delete (UserID c) (userClients s) \<rparr>
              else s\<lparr> userClients :=
                       AList.update (UserID c) (AList.delete (DeviceID c) devices) (userClients s) \<rparr>)
         | None \<Rightarrow> s)
      else s)"

definition Shard_RemoveClient :: "store \<Rightarrow> Shard \<Rightarrow> string \<Rightarrow> error + (ref option \<times> Shard)" where
  "Shard_RemoveClient h s clientID =
     (case map_of (clients s) clientID of
        None \<Rightarrow> Inr (None, s)
      | Some client \<Rightarrow>
          (case h client of
             None \<Rightarrow> Inl PanicNilDereference
           | Some c \<Rightarrow>
               (let s1 = s\<lparr> clients := AList.delete clientID (clients s) \<rparr>;
                    s2 = delete_user_mapping s1 c
                in Inr (Some client,
                     s2\<lparr> stats := (stats s2)\<lparr> ActiveConnections := ActiveConnections (stats s2) - 1,
                             Disconnections := Disconnections (stats s2) + 1 \<rparr> \<rparr>))))"

definition Shard_GetClient :: "Shard \<Rightarrow> string \<Rightarrow> ref option" where
  "Shard_GetClient s clientID = map_of (clients s) clientID"

definition Shard_GetUserClients :: "Shard \<Rightarrow> string \<Rightarrow> ref list" where
  "Shard_GetUserClients s userID =
     (case map_of (userClients s) userID of
        None \<Rightarrow> []
      | Some devices \<Rightarrow> map snd devices)"

definition RegisterAuthenticatedClient ::
  "store \<Rightarrow> Shard \<Rightarrow> ref \<Rightarrow> string \<Rightarrow> string \<Rightarrow> error + (store \<times> Shard)" where
  "RegisterAuthenticatedClient h s client userID deviceID =
     (case h client of
        None \<Rightarrow> Inl PanicNilDereference
      | Some c \<Rightarrow>
          (let h' = h(client \<mapsto> SetAuthenticated c userID deviceID);
               devices = (case map_of (userClients s) userID of None \<Rightarrow> [] | Some d \<Rightarrow> d)
           in Inr (h', s\<lparr> userClients :=
                            AList.update userID (AList.update deviceID client devices)
                              (userClients s) \<rparr>)))"

text \<open>
  The loop of \<^verbatim>\<open>CleanupInactive\<close> over the entries of \<^verbatim>\<open>s.clients\<close>. The only entry
  the body deletes from \<^verbatim>\<open>s.clients\<close> is the one it is visiting, so the loop visits every
  entry the map held at the start. Go leaves the order of the visits open; here it is the
  order of the association list.
\<close>

fun CleanupInactive_loop ::
  "store \<Rightarrow> duration \<Rightarrow> time \<Rightarrow> (string \<times> ref) list \<Rightarrow> Shard \<Rightarrow> string list
   \<Rightarrow> error + (Shard \<times> string list)" where
  "CleanupInactive_loop h timeout now [] s removed = Inr (s, removed)"
| "CleanupInactive_loop h timeout now ((cid, client) # rest) s removed =
     (case h client of
        None \<Rightarrow> Inl PanicNilDereference
      | Some c \<Rightarrow>
          (if now - LastActivity c > timeout
           then CleanupInactive_loop h timeout now rest
                  (delete_user_mapping (s\<lparr> clients := AList.delete cid (clients s) \<rparr>) c)
                  (removed @ [cid])
           else CleanupInactive_loop h timeout now rest s removed))"

definition CleanupInactive ::
  "store \<Rightarrow> Shard \<Rightarrow> duration \<Rightarrow> time \<Rightarrow> error + (Shard \<times> string list)" where
  "CleanupInactive h s timeout now =
     (case CleanupInactive_loop h timeout now (clients s) s [] of
        Inl e \<Rightarrow> Inl e
      | Inr (s', removed) \<Rightarrow>
          Inr (s'\<lparr> stats := (stats s')\<lparr>
                     ActiveConnections := ActiveConnections (stats s') - int (length removed),
                     LastCleanup := now \<rparr> \<rparr>,
               removed))"

definition GetStats :: "Shard \<Rightarrow> ShardStats" where
  "GetStats s = (stats s)\<lparr> ActiveConnections := int (length (clients s)) \<rparr>"

subsection \<open>manager.go\<close>

text \<open>
  \<open>hook_log\<close> holds the calls of the connect and the disconnect hook, in order;
  \<open>onConnect\<close> and \<open>onDisconnect\<close> say whether a hook is registered (not \<^verbatim>\<open>nil\<close>). \<open>heap\<close> is the store of the \<^verbatim>\<open>Client\<close> objects and
  \<open>next_ref\<close> the next free address. The types \<^verbatim>\<open>IPRateLimiter\<close> and
  \<^verbatim>\<open>UserRateLimiter\<close> are not in the sources: the answer of each \<^verbatim>\<open>Allow\<close> call is an
  argument of the operation that makes the call.
\<close>

datatype hook_call = ConnectCall ref | DisconnectCall ref string

record Manager =
  shards :: "Shard list"
  shardCount :: "32 word"
  shardMask :: "32 word"
  config :: Config
  globalConns :: int
  maxConns :: int
  heap :: store
  next_ref :: ref
  onConnect :: bool
  onDisconnect :: bool
  hook_log :: "hook_call list"

definition nextPowerOfTwo :: "32 word \<Rightarrow> 32 word" where
  "nextPowerOfTwo n0 =
     (let n1 = n0 - 1;
          n2 = n1 OR drop_bit 1 n1;
          n3 = n2 OR drop_bit 2 n2;
          n4 = n3 OR drop_bit 4 n3;
          n5 = n4 OR drop_bit 8 n4;
          n6 = n5 OR drop_bit 16 n5
      in n6 + 1)"

definition NewManager :: "Config \<Rightarrow> Manager" where
  "NewManager cfg =
     (let shardCount0 = (word_of_int (Sharding_ShardCount cfg) :: 32 word);
          shardCount1 = (if shardCount0 = 0 then 64 else shardCount0);
          shardCount2 = nextPowerOfTwo shardCount1
      in \<lparr> shards = map (\<lambda>i. NewShard (of_nat i)) [0..<unat shardCount2],
           shardCount = shardCount2,
           shardMask = shardCount2 - 1,
           config = cfg,
           globalConns = 0,
           maxConns = RateLimit_GlobalConnections cfg,
           heap = Map.empty,
           next_ref = 0,
           onConnect = False,
           onDisconnect = False,
           hook_log = [] \<rparr>)"

definition RegisterHandlers :: "Manager \<Rightarrow> bool \<Rightarrow> bool \<Rightarrow> Manager" where
  "RegisterHandlers m connectHook disconnectHook =
     m\<lparr> onConnect := connectHook, onDisconnect := disconnectHook \<rparr>"

text \<open>FNV-1a over the bytes of the key, 32 bits, as \<^verbatim>\<open>hash/fnv\<close> computes it.\<close>

definition fnv32a :: "string \<Rightarrow> 32 word" where
  "fnv32a key = foldl (\<lambda>h b. (h XOR of_char b) * 16777619) 2166136261 key"

definition getShardID :: "Manager \<Rightarrow> string \<Rightarrow> 32 word" where
  "getShardID m key = fnv32a key AND shardMask m"

text \<open>\<^verbatim>\<open>m.shards[shardID]\<close>: an index outside the slice is a run-time panic.\<close>

definition shard_at :: "Manager \<Rightarrow> 32 word \<Rightarrow> Shard option" where
  "shard_at m shardID =
     (if unat shardID < length (shards m) then Some (shards m ! unat shardID) else None)"

definition set_shard :: "Manager \<Rightarrow> 32 word \<Rightarrow> Shard \<Rightarrow> Manager" where
  "set_shard m shardID s = m\<lparr> shards := (shards m)[unat shardID := s] \<rparr>"

text \<open>
  \<^verbatim>\<open>AddConnection\<close>. \<open>clientID\<close> is what \<^verbatim>\<open>uuid.New().String()\<close> returns, \<open>now\<close> the
  clock, \<open>ipAllow\<close> the answer of \<^verbatim>\<open>m.ipLimiter.Allow(ip)\<close>. The two pumps it starts
  are modelled apart (\<open>ReadPump_step\<close>).
\<close>

definition AddConnection ::
  "Manager \<Rightarrow> string \<Rightarrow> int \<Rightarrow> int \<Rightarrow> string \<Rightarrow> time \<Rightarrow> bool \<Rightarrow> (error + ref) \<times> Manager" where
  "AddConnection m ip rateLimit burst clientID now ipAllow =
     (if globalConns m \<ge> maxConns m then (Inl ErrGlobalLimit, m)
      else if \<not> ipAllow then (Inl ErrIPLimit, m)
      else
        (let shardID = getShardID m clientID in
         case shard_at m shardID of
           None \<Rightarrow> (Inl PanicIndexOutOfRange, m)
         | Some shard \<Rightarrow>
             (let client = next_ref m;
                  h = (heap m)(client \<mapsto> NewClient clientID ip shardID rateLimit burst now)
              in case Shard_AddClient h shard client of
                   Inl e \<Rightarrow> (Inl e, m)
                 | Inr shard' \<Rightarrow>
                     (Inr client,
                      (set_shard m shardID shard')\<lparr>
                          heap := h,
                          next_ref := Suc client,
                          globalConns := globalConns m + 1,
                          hook_log := (if onConnect m then hook_log m @ [ConnectCall client]
                                       else hook_log m) \<rparr>))))"

text \<open>\<open>userAllow\<close> is the answer of \<^verbatim>\<open>m.userLimiter.Allow(userID)\<close>.\<close>

definition AuthenticateClient ::
  "Manager \<Rightarrow> string \<Rightarrow> string \<Rightarrow> string \<Rightarrow> bool \<Rightarrow> error option \<times> Manager" where
  "AuthenticateClient m clientID userID deviceID userAllow =
     (let shardID = getShardID m clientID in
      case shard_at m shardID of
        None \<Rightarrow> (Some PanicIndexOutOfRange, m)
      | Some shard \<Rightarrow>
          (case Shard_GetClient shard clientID of
             None \<Rightarrow> (Some ErrClientNotFound, m)
           | Some client \<Rightarrow>
               if \<not> userAllow then (Some ErrUserLimit, m)
               else (case RegisterAuthenticatedClient (heap m) shard client userID deviceID of
                       Inl e \<Rightarrow> (Some e, m)
                     | Inr (h', shard') \<Rightarrow> (None, (set_shard m shardID shard')\<lparr> heap := h' \<rparr>))))"

definition GetClient :: "Manager \<Rightarrow> string \<Rightarrow> error + ref option" where
  "GetClient m clientID =
     (case shard_at m (getShardID m clientID) of
        None \<Rightarrow> Inl PanicIndexOutOfRange
      | Some shard \<Rightarrow> Inr (Shard_GetClient shard clientID))"

definition GetUserClients :: "Manager \<Rightarrow> string \<Rightarrow> ref list" where
  "GetUserClients m userID = concat (map (\<lambda>shard. Shard_GetUserClients shard userID) (shards m))"

definition RemoveClient :: "Manager \<Rightarrow> string \<Rightarrow> string \<Rightarrow> error option \<times> Manager" where
  "RemoveClient m clientID reason =
     (let shardID = getShardID m clientID in
      case shard_at m shardID of
        None \<Rightarrow> (Some PanicIndexOutOfRange, m)
      | Some shard \<Rightarrow>
          (case Shard_RemoveClient (heap m) shard clientID of
             Inl e \<Rightarrow> (Some e, m)
           | Inr (None, shard') \<Rightarrow> (None, m)
           | Inr (Some client, shard') \<Rightarrow>
               (case heap m client of
                  None \<Rightarrow> (Some PanicNilDereference, m)
                | Some c \<Rightarrow>
                    (None,
                     (set_shard m shardID shard')\<lparr>
                         globalConns := globalConns m - 1,
                         heap := (heap m)(client \<mapsto> Close c reason),
                         hook_log := (if onDisconnect m
                                      then hook_log m @ [DisconnectCall client reason]
                                      else hook_log m) \<rparr>))))"

definition handleDisconnect :: "Manager \<Rightarrow> ref \<Rightarrow> error option \<times> Manager" where
  "handleDisconnect m client =
     (case heap m client of
        None \<Rightarrow> (Some PanicNilDereference, m)
      | Some c \<Rightarrow> RemoveClient m (ID c) ''client_disconnected'')"

text \<open>
  The inner loop of \<^verbatim>\<open>cleanupInactiveConnections\<close> over the ids one shard removed:
  the counter goes down by one per id, and the hook is called when it is registered
  and \<^verbatim>\<open>shard.GetClient(clientID)\<close> finds a client. \<open>shard\<close> is the shard as
  \<^verbatim>\<open>CleanupInactive\<close> left it.
\<close>

fun report_removed :: "Manager \<Rightarrow> Shard \<Rightarrow> string list \<Rightarrow> Manager" where
  "report_removed m shard [] = m"
| "report_removed m shard (clientID # rest) =
     (let m1 = m\<lparr> globalConns := globalConns m - 1 \<rparr>;
          m2 = (if onDisconnect m1 then
                  (case Shard_GetClient shard clientID of
                     Some client \<Rightarrow>
                       m1\<lparr> hook_log := hook_log m1 @ [DisconnectCall client ''inactive_timeout''] \<rparr>
                   | None \<Rightarrow> m1)
                else m1)
      in report_removed m2 shard rest)"

text \<open>
  The outer loop over \<^verbatim>\<open>m.shards\<close>; \<open>i\<close> is the position of the shard being swept and
  \<open>clock i\<close> what \<^verbatim>\<open>time.Now()\<close> returns inside its \<^verbatim>\<open>CleanupInactive\<close>.
\<close>

fun cleanup_shards ::
  "duration \<Rightarrow> (nat \<Rightarrow> time) \<Rightarrow> nat \<Rightarrow> Shard list \<Rightarrow> Manager \<Rightarrow> error option \<times> Manager" where
  "cleanup_shards timeout clock i [] m = (None, m)"
| "cleanup_shards timeout clock i (shard # rest) m =
     (case CleanupInactive (heap m) shard timeout (clock i) of
        Inl e \<Rightarrow> (Some e, m)
      | Inr (shard', removed) \<Rightarrow>
          cleanup_shards timeout clock (Suc i) rest
            (report_removed (m\<lparr> shards := (shards m)[i := shard'] \<rparr>) shard' removed))"

definition cleanupInactiveConnections :: "Manager \<Rightarrow> (nat \<Rightarrow> time) \<Rightarrow> error option \<times> Manager" where
  "cleanupInactiveConnections m clock =
     cleanup_shards (Server_PongWait (config m) * 2) clock 0 (shards m) m"

subsection \<open>pubsub/redis.go\<close>

text \<open>
  The payloads on the bus are JSON texts, written and read with \<^verbatim>\<open>encoding/json\<close>. A
  JSON text is represented by the value it denotes; bytes that are no JSON text are
  \<open>None\<close>. Numbers are the integers (the only numbers the modelled structs hold).
\<close>

datatype json =
    JNull
  | JBool bool
  | JNumber int
  | JString string
  | JArray "json list"
  | JObject "(string \<times> json) list"

type_synonym json_text = "json option"

record BaseMessage =
  Type :: string
  MessageID :: string
  Timestamp :: int

text \<open>
  The anonymous struct of \<^verbatim>\<open>processMessage\<close>; \<open>Message\<close> is a \<^verbatim>\<open>json.RawMessage\<close>, the
  text of the member as it stands in the envelope (\<open>None\<close> when the member is absent).
\<close>

record Envelope =
  NodeID :: string
  env_Timestamp :: int
  Message :: json_text

record 'h RedisPubSub =
  channel :: string
  nodeID :: string
  handlers :: "(string \<times> 'h) list"

definition RegisterHandler :: "'h RedisPubSub \<Rightarrow> string \<Rightarrow> 'h \<Rightarrow> 'h RedisPubSub" where
  "RegisterHandler r msgType handler = r\<lparr> handlers := AList.update msgType handler (handlers r) \<rparr>"

text \<open>
  \<^verbatim>\<open>json.Unmarshal\<close> into a struct. A key of the object belongs to the field whose tag
  it equals under \<^verbatim>\<open>foldName\<close>: ASCII letters are compared without case, and the only
  other characters that fold to an ASCII letter are the Kelvin sign (E2 84 AA, to K)
  and the long s (C5 BF, to S). The members of a field are decoded in the order of the
  text: a string field takes a JSON string, an \<^verbatim>\<open>int64\<close> field a JSON number in its
  range, \<^verbatim>\<open>null\<close> leaves the field as it is, a later member overwrites an earlier one,
  and a member of another kind is an error (reported when the object has been read).
  A \<^verbatim>\<open>json.RawMessage\<close> field takes the text of its last member, whatever its kind. A
  struct takes a JSON object and is left at zero by \<^verbatim>\<open>null\<close>; a JSON text of any other
  kind, a string among them, is an error, and so is an empty text.
\<close>

definition ascii_upper :: "char \<Rightarrow> char" where
  "ascii_upper c =
     (if (97 :: nat) \<le> of_char c \<and> (of_char c :: nat) \<le> 122
      then char_of (of_char c - (32 :: nat)) else c)"

fun foldName :: "string \<Rightarrow> string" where
  "foldName (a # b # c # rest) =
     (if a = CHR 0xE2 \<and> b = CHR 0x84 \<and> c = CHR 0xAA then CHR ''K'' # foldName rest
      else if a = CHR 0xC5 \<and> b = CHR 0xBF then CHR ''S'' # foldName (c # rest)
      else ascii_upper a # foldName (b # c # rest))"
| "foldName [a, b] =
     (if a = CHR 0xC5 \<and> b = CHR 0xBF then [CHR ''S''] else [ascii_upper a, ascii_upper b])"
| "foldName [a] = [ascii_upper a]"
| "foldName [] = []"

definition members_of :: "(string \<times> json) list \<Rightarrow> string \<Rightarrow> json list" where
  "members_of members tag =
     map snd (filter (\<lambda>member. foldName (fst member) = foldName tag) members)"

definition string_member :: "(string \<times> json) list \<Rightarrow> string \<Rightarrow> string option" where
  "string_member members tag =
     foldl (\<lambda>field v.
              case field of
                None \<Rightarrow> None
              | Some cur \<Rightarrow>
                  (case v of JNull \<Rightarrow> Some cur | JString s \<Rightarrow> Some s | other \<Rightarrow> None))
       (Some []) (members_of members tag)"

definition int64_member :: "(string \<times> json) list \<Rightarrow> string \<Rightarrow> int option" where
  "int64_member members tag =
     foldl (\<lambda>field v.
              case field of
                None \<Rightarrow> None
              | Some cur \<Rightarrow>
                  (case v of
                     JNull \<Rightarrow> Some cur
                   | JNumber n \<Rightarrow> if - (2 ^ 63) \<le> n \<and> n < 2 ^ 63 then Some n else None
                   | other \<Rightarrow> None))
       (Some 0) (members_of members tag)"

definition raw_member :: "(string \<times> json) list \<Rightarrow> string \<Rightarrow> json_text" where
  "raw_member members tag =
     (case members_of members tag of
        [] \<Rightarrow> None
      | v # vs \<Rightarrow> Some (last (v # vs)))"

definition Unmarshal_Envelope :: "json_text \<Rightarrow> Envelope option" where
  "Unmarshal_Envelope text =
     (case text of
        None \<Rightarrow> None
      | Some JNull \<Rightarrow> Some \<lparr> NodeID = [], env_Timestamp = 0, Message = None \<rparr>
      | Some (JObject members) \<Rightarrow>
          (case (string_member members ''node_id'', int64_member members ''timestamp'') of
             (Some node, Some ts) \<Rightarrow>
               Some \<lparr> NodeID = node, env_Timestamp = ts, Message = raw_member members ''message'' \<rparr>
           | other \<Rightarrow> None)
      | Some other \<Rightarrow> None)"

definition Unmarshal_BaseMessage :: "json_text \<Rightarrow> BaseMessage option" where
  "Unmarshal_BaseMessage text =
     (case text of
        None \<Rightarrow> None
      | Some JNull \<Rightarrow> Some \<lparr> Type = [], MessageID = [], Timestamp = 0 \<rparr>
      | Some (JObject members) \<Rightarrow>
          (case (string_member members ''type'', string_member members ''message_id'',
                 int64_member members ''timestamp'') of
             (Some t, Some mid, Some ts) \<Rightarrow> Some \<lparr> Type = t, MessageID = mid, Timestamp = ts \<rparr>
           | other \<Rightarrow> None)
      | Some other \<Rightarrow> None)"

text \<open>
  \<^verbatim>\<open>Publish\<close>: the message is marshalled to \<^verbatim>\<open>msgBytes\<close>, a byte slice, and the
  envelope is a \<^verbatim>\<open>map[string]interface{}\<close> that holds that byte slice under
  \<open>message\<close>. \<^verbatim>\<open>json.Marshal\<close> writes a byte slice as a JSON string, its base64
  encoding, and the keys of a map in sorted order. \<open>msg\<close> is the JSON value of the
  message, \<open>base64 msg\<close> the base64 encoding of its text, \<open>nowMillis\<close> the clock. The
  result is the payload handed to the broker.
\<close>

definition Publish :: "'h RedisPubSub \<Rightarrow> (json \<Rightarrow> string) \<Rightarrow> int \<Rightarrow> json \<Rightarrow> json_text" where
  "Publish r base64 nowMillis msg =
     Some (JObject [(''message'', JString (base64 msg)),
                    (''node_id'', JString (nodeID r)),
                    (''timestamp'', JNumber nowMillis)])"

text \<open>
  What one call of \<^verbatim>\<open>processMessage\<close> does: the two parse failures are logged, a message
  of this node is dropped without a log line, a message with no handler is logged at
  debug level, and otherwise the handler registered for the type is called with the
  inner message.
\<close>

datatype 'h dispatch =
    EnvelopeParseError
  | SkippedOwnMessage
  | InnerParseError
  | NoHandler string
  | Invoked 'h BaseMessage

definition processMessage :: "'h RedisPubSub \<Rightarrow> json_text \<Rightarrow> 'h dispatch" where
  "processMessage r payload =
     (case Unmarshal_Envelope payload of
        None \<Rightarrow> EnvelopeParseError
      | Some envelope \<Rightarrow>
          if NodeID envelope = nodeID r then SkippedOwnMessage
          else (case Unmarshal_BaseMessage (Message envelope) of
                  None \<Rightarrow> InnerParseError
                | Some baseMsg \<Rightarrow>
                    (case map_of (handlers r) (Type baseMsg) of
                       None \<Rightarrow> NoHandler (Type baseMsg)
                     | Some handler \<Rightarrow> Invoked handler baseMsg)))"

fun handler_fired :: "'h dispatch \<Rightarrow> bool" where
  "handler_fired (Invoked h b) = True"
| "handler_fired other = False"

text \<open>
  Two concrete sessions used below: one whose buffer was filled by 256 calls of
  \<^verbatim>\<open>WriteMessage\<close>, and the same session after \<^verbatim>\<open>Close\<close>.
\<close>

definition write_all :: "Client \<Rightarrow> bytes list \<Rightarrow> Client" where
  "write_all c msgs = foldl (\<lambda>c' m. snd (WriteMessage c' m)) c msgs"

definition full_client :: Client where
  "full_client = write_all (NewClient ''c1'' ''10.0.0.1'' 0 100 150 0) (replicate 256 ''m'')"

definition full_closing_client :: Client where
  "full_closing_client = Close full_client ''server_shutdown''"

text \<open>
  Two bus adapters, of the nodes \<open>n1\<close> and \<open>n2\<close>, each with a handler for presence
  messages; the presence message that \<^verbatim>\<open>publishPresence\<close> builds for user \<open>u1\<close>; and
  the base64 encoder at that message, the only one encoded below.
\<close>

definition example_pubsub :: "nat RedisPubSub" where
  "example_pubsub =
     RegisterHandler \<lparr> channel = ''ws-gateway:messages'', nodeID = ''n1'', handlers = [] \<rparr>
       ''presence'' 7"

definition peer_pubsub :: "nat RedisPubSub" where
  "peer_pubsub =
     RegisterHandler \<lparr> channel = ''ws-gateway:messages'', nodeID = ''n2'', handlers = [] \<rparr>
       ''presence'' 7"

definition example_presence :: json where
  "example_presence =
     JObject [(''device_id'', JString ''d1''), (''status'', JString ''offline''),
              (''timestamp'', JNumber 1), (''type'', JString ''presence''),
              (''user_id'', JString ''u1'')]"

definition example_base64 :: "json \<Rightarrow> string" where
  "example_base64 v = ''eyJkZXZpY2VfaWQiOiJkMSIsInN0YXR1cyI6Im9mZmxpbmUiLCJ0aW1lc3RhbXAiOjEsInR5cGUiOiJwcmVzZW5jZSIsInVzZXJfaWQiOiJ1MSJ9''"

text \<open>An envelope whose \<open>message\<close> member is the message itself, as an object.\<close>

definition example_object_envelope :: json_text where
  "example_object_envelope =
     Some (JObject [(''message'', example_presence), (''node_id'', JString ''n2''),
                    (''timestamp'', JNumber 1)])"

subsection \<open>Reachable states of the registry\<close>

text \<open>
  \<open>id_in_use m clientID\<close>: some shard holds a session under \<open>clientID\<close>. The states of
  a manager: what \<^verbatim>\<open>NewManager\<close> builds, and what \<^verbatim>\<open>RegisterHandlers\<close>,
  \<^verbatim>\<open>AddConnection\<close>, \<^verbatim>\<open>AuthenticateClient\<close>, \<^verbatim>\<open>RemoveClient\<close> and the cleanup sweep
  make of a reachable state, with any arguments, any clock and any answer of the two
  limiters. The one assumption is on \<^verbatim>\<open>uuid.New()\<close>: the id it returns is not the id
  of a session that is registered at that moment.
\<close>

definition id_in_use :: "Manager \<Rightarrow> string \<Rightarrow> bool" where
  "id_in_use m clientID = list_ex (\<lambda>s. map_of (clients s) clientID \<noteq> None) (shards m)"

inductive reachable :: "Config \<Rightarrow> Manager \<Rightarrow> bool" for cfg :: Config where
  reach_new: "reachable cfg (NewManager cfg)"
| reach_handlers: "reachable cfg m \<Longrightarrow> reachable cfg (RegisterHandlers m connectHook disconnectHook)"
| reach_add: "reachable cfg m \<Longrightarrow> \<not> id_in_use m clientID \<Longrightarrow>
     reachable cfg (snd (AddConnection m ip rateLimit burst clientID now ipAllow))"
| reach_auth: "reachable cfg m \<Longrightarrow>
     reachable cfg (snd (AuthenticateClient m clientID userID deviceID userAllow))"
| reach_remove: "reachable cfg m \<Longrightarrow> reachable cfg (snd (RemoveClient m clientID reason))"
| reach_cleanup: "reachable cfg m \<Longrightarrow> reachable cfg (snd (cleanupInactiveConnections m clock))"

code_pred reachable .

text \<open>The sum over all shards of the size of the primary map.\<close>

definition primary_total :: "Manager \<Rightarrow> int" where
  "primary_total m = sum_list (map (\<lambda>s. int (length (clients s))) (shards m))"

text \<open>Every primary map is a map: no key twice.\<close>

definition primary_maps_ok :: "Manager \<Rightarrow> bool" where
  "primary_maps_ok m = list_all (\<lambda>s. distinct (map fst (clients s))) (shards m)"

text \<open>A small configuration: one shard, room for two connections, one session per user.\<close>

definition example_config :: Config where
  "example_config =
     (setDefaults ''n1'')\<lparr> Auth_JWTSecret := ''secret'', Sharding_ShardCount := 1,
        RateLimit_ConnectionsPerUser := 1, RateLimit_GlobalConnections := 2 \<rparr>"

definition example_manager :: Manager where
  "example_manager = RegisterHandlers (NewManager example_config) True True"

text \<open>
  The invariant of the counter: it equals the sum of the sizes of the primary maps,
  every primary map has distinct keys, and the counter never passes the ceiling
  \<^verbatim>\<open>maxConns\<close> (so the 64-bit counter of the source cannot overflow).
\<close>

definition counter_inv :: "Manager \<Rightarrow> bool" where
  "counter_inv m =
     (globalConns m = primary_total m \<and> primary_maps_ok m \<and> globalConns m \<le> max 0 (maxConns m))"

definition example_m1 :: Manager where
  "example_m1 = snd (AddConnection example_manager ''1.2.3.4'' 100 150 ''c1'' 0 True)"

definition example_m2 :: Manager where
  "example_m2 = snd (AddConnection example_m1 ''1.2.3.5'' 100 150 ''c2'' (5 * second) True)"

subsection \<open>Reading the registry\<close>

text \<open>
  \<open>user_index s userID deviceID\<close> reads \<^verbatim>\<open>s.userClients[userID][deviceID]\<close>.
  \<open>registered m\<close> lists the pointers the primary maps hold, and
  \<open>live_sessions m userID deviceID\<close> those of them whose session is authenticated
  under the pair and not closing.
\<close>

definition user_index :: "Shard \<Rightarrow> string \<Rightarrow> string \<Rightarrow> ref option" where
  "user_index s userID deviceID =
     (case map_of (userClients s) userID of
        None \<Rightarrow> None
      | Some devices \<Rightarrow> map_of devices deviceID)"

definition registered :: "Manager \<Rightarrow> ref list" where
  "registered m = concat (map (\<lambda>s. map snd (clients s)) (shards m))"

definition is_live_as :: "store \<Rightarrow> string \<Rightarrow> string \<Rightarrow> ref \<Rightarrow> bool" where
  "is_live_as h userID deviceID client =
     (case h client of
        None \<Rightarrow> False
      | Some c \<Rightarrow> authenticated c \<and> \<not> closing c \<and> UserID c = userID \<and> DeviceID c = deviceID)"

definition live_sessions :: "Manager \<Rightarrow> string \<Rightarrow> string \<Rightarrow> ref list" where
  "live_sessions m userID deviceID = filter (is_live_as (heap m) userID deviceID) (registered m)"

subsection \<open>server/websocket.go\<close>

record Request =
  XForwardedFor :: string
  RemoteAddr :: string

definition getClientIP :: "Request \<Rightarrow> string" where
  "getClientIP r = (if XForwardedFor r \<noteq> [] then XForwardedFor r else RemoteAddr r)"

definition checkIPLimit :: "string \<Rightarrow> bool" where
  "checkIPLimit ip = True"

text \<open>
  What \<^verbatim>\<open>ServeHTTP\<close> does to the connection, in order: an HTTP error status it writes
  itself, a failed upgrade (the upgrader has answered the request), a completed
  upgrade, and \<^verbatim>\<open>conn.Close()\<close>. \<open>upgradeOK\<close> says whether \<^verbatim>\<open>s.upgrader.Upgrade\<close>
  succeeds; the other arguments are those of \<open>AddConnection\<close>.
\<close>

datatype http_event = HttpError nat | UpgradeFailed | Upgraded | ConnClosed

definition StatusTooManyRequests :: nat where
  "StatusTooManyRequests = 429"

definition StatusServiceUnavailable :: nat where
  "StatusServiceUnavailable = 503"

definition ServeHTTP ::
  "Manager \<Rightarrow> Request \<Rightarrow> bool \<Rightarrow> string \<Rightarrow> time \<Rightarrow> bool \<Rightarrow> http_event list \<times> Manager" where
  "ServeHTTP connManager r upgradeOK clientID now ipAllow =
     (let ip = getClientIP r in
      if \<not> checkIPLimit ip then ([HttpError StatusTooManyRequests], connManager)
      else if \<not> upgradeOK then ([UpgradeFailed], connManager)
      else (case AddConnection connManager ip
                   (RateLimit_MessagesPerSecond (config connManager))
                   (RateLimit_Burst (config connManager)) clientID now ipAllow of
              (Inl e, m') \<Rightarrow> ([Upgraded, ConnClosed], m')
            | (Inr client, m') \<Rightarrow> ([Upgraded], m')))"

subsection \<open>The read pipeline\<close>

record ErrorMessage =
  err_Type :: string
  err_MessageID :: string
  err_Timestamp :: int
  Code :: string
  err_Message :: string
  Details :: string

definition NewErrorMessage :: "string \<Rightarrow> string \<Rightarrow> string \<Rightarrow> string \<Rightarrow> time \<Rightarrow> ErrorMessage" where
  "NewErrorMessage code message details messageID nowMillis =
     \<lparr> err_Type = ''error'', err_MessageID = messageID, err_Timestamp = nowMillis,
       Code = code, err_Message = message, Details = details \<rparr>"

text \<open>
  What the socket delivers to one \<^verbatim>\<open>c.Conn.ReadMessage()\<close>: a failure (an error or a
  close frame) or a complete message. \<^verbatim>\<open>ReadPump\<close> sets the read limit of the connection
  to \<^verbatim>\<open>1024 * 1024\<close>; with a read limit, the websocket library fails the read of a message
  longer than the limit and lets a message of at most the limit through.
\<close>

datatype socket_read = ReadFailed | Frame bytes

definition readLimit :: int where
  "readLimit = 1024 * 1024"

definition Conn_ReadMessage :: "int \<Rightarrow> socket_read \<Rightarrow> bytes option" where
  "Conn_ReadMessage limit input =
     (case input of
        ReadFailed \<Rightarrow> None
      | Frame message \<Rightarrow> if int (length message) > limit then None else Some message)"

datatype pump = Running | Stopped

text \<open>
  One turn of the loop of \<^verbatim>\<open>ReadPump\<close>. \<open>allow\<close> is the answer of
  \<^verbatim>\<open>c.RateLimiter.Allow()\<close>, \<open>marshal\<close> is \<^verbatim>\<open>json.Marshal\<close>, \<open>messageID\<close> the UUID of
  the error message. The third component is the message handed to \<^verbatim>\<open>messageHandler\<close>,
  if any. When the loop stops, the deferred calls run: \<open>ReadPump_exit\<close>.
\<close>

definition ReadPump_step ::
  "(ErrorMessage \<Rightarrow> bytes) \<Rightarrow> Client \<Rightarrow> socket_read \<Rightarrow> time \<Rightarrow> bool \<Rightarrow> string
   \<Rightarrow> pump \<times> Client \<times> bytes option" where
  "ReadPump_step marshal c input now allow messageID =
     (if ctx_done c then (Stopped, c, None)
      else (case Conn_ReadMessage readLimit input of
              None \<Rightarrow> (Stopped, c, None)
            | Some message \<Rightarrow>
                (let c1 = c\<lparr> LastActivity := now,
                            metrics := (metrics c)\<lparr>
                              MessagesReceived := MessagesReceived (metrics c) + 1,
                              BytesReceived := BytesReceived (metrics c) + int (length message) \<rparr> \<rparr>
                 in (if \<not> allow then
                       (Running,
                        snd (WriteMessage c1
                               (marshal (NewErrorMessage ''RATE_LIMIT_EXCEEDED'' ''Too many messages''
                                           ''Please slow down'' messageID (now div 1000000)))),
                        None)
                     else (Running, c1, Some message)))))"

definition ReadPump_exit :: "Manager \<Rightarrow> ref \<Rightarrow> error option \<times> Manager" where
  "ReadPump_exit m client =
     (case handleDisconnect m client of
        (Some e, m') \<Rightarrow> (Some e, m')
      | (None, m') \<Rightarrow>
          (case heap m' client of
             None \<Rightarrow> (Some PanicNilDereference, m')
           | Some c \<Rightarrow> (None, m'\<lparr> heap := (heap m')(client \<mapsto> cleanup c) \<rparr>)))"

text \<open>
  One turn of \<^verbatim>\<open>ReadPump\<close> for the session at an address of the store, as the manager
  starts it (\<^verbatim>\<open>client.ReadPump(m.onMessage, m.handleDisconnect)\<close>): the turn of the
  loop on the session, and the deferred calls when the loop stops. The components are
  the state of the loop, a panic if any, the manager afterwards, and the message handed
  to the handler.
\<close>

definition ReadPump_turn ::
  "(ErrorMessage \<Rightarrow> bytes) \<Rightarrow> Manager \<Rightarrow> ref \<Rightarrow> socket_read \<Rightarrow> time \<Rightarrow> bool \<Rightarrow> string
   \<Rightarrow> pump \<times> error option \<times> Manager \<times> bytes option" where
  "ReadPump_turn marshal m client input now allow messageID =
     (case heap m client of
        None \<Rightarrow> (Stopped, Some PanicNilDereference, m, None)
      | Some c \<Rightarrow>
          (case ReadPump_step marshal c input now allow messageID of
             (Running, c', handed) \<Rightarrow> (Running, None, m\<lparr> heap := (heap m)(client \<mapsto> c') \<rparr>, handed)
           | (Stopped, c', handed) \<Rightarrow>
               (case ReadPump_exit (m\<lparr> heap := (heap m)(client \<mapsto> c') \<rparr>) client of
                  (e, m') \<Rightarrow> (Stopped, e, m', handed))))"

subsection \<open>Example states\<close>

definition example_m3 :: Manager where
  "example_m3 = snd (AuthenticateClient example_m2 ''c1'' ''u1'' ''d1'' True)"

definition example_m4 :: Manager where
  "example_m4 = snd (AuthenticateClient example_m3 ''c2'' ''u1'' ''d1'' True)"

definition example_m3b :: Manager where
  "example_m3b = snd (AuthenticateClient example_m3 ''c1'' ''u1'' ''d2'' True)"

definition example_request :: Request where
  "example_request = \<lparr> XForwardedFor = [], RemoteAddr = ''1.2.3.6:50000'' \<rparr>"

definition example_marshal :: "ErrorMessage \<Rightarrow> bytes" where
  "example_marshal e = Code e"

definition example_clock :: "nat \<Rightarrow> time" where
  "example_clock i = 200 * second"

definition example_client :: Client where
  "example_client = NewClient ''c1'' ''10.0.0.1'' 0 100 150 0"

definition example_config_big :: Config where
  "example_config_big = example_config\<lparr> Server_MaxMessageSize := 2 * 1024 * 1024 \<rparr>"

subsection \<open>The user limiter\<close>

text \<open>
  \<open>open_sessions m userID\<close>: the sessions in the store, that is every session the
  manager has created, in a primary map or not, that are authenticated under \<open>userID\<close>
  and not closing.
\<close>

definition authenticated_as :: "store \<Rightarrow> string \<Rightarrow> ref \<Rightarrow> bool" where
  "authenticated_as h userID client =
     (case h client of
        None \<Rightarrow> False
      | Some c \<Rightarrow> authenticated c \<and> \<not> closing c \<and> UserID c = userID)"

definition open_sessions :: "Manager \<Rightarrow> string \<Rightarrow> ref list" where
  "open_sessions m userID = filter (authenticated_as (heap m) userID) [0..<next_ref m]"

text \<open>
  Modelled from the spec: the type \<^verbatim>\<open>UserRateLimiter\<close> and its method \<^verbatim>\<open>Allow\<close>, which
  \<^verbatim>\<open>AuthenticateClient\<close> calls, are not in the sources. The spec describes the limiter as
  an "integer cap per user-id on currently open authenticated sessions", "consulted by
  the Registry at register_authenticated": it allows a registration when the user has
  fewer open authenticated sessions than \<^verbatim>\<open>rate_limit.connections_per_user\<close>.
\<close>

definition UserRateLimiter_Allow :: "Manager \<Rightarrow> string \<Rightarrow> bool" where
  "UserRateLimiter_Allow m userID =
     (int (length (open_sessions m userID)) < RateLimit_ConnectionsPerUser (config m))"

text \<open>
  The states of a manager whose user limiter is this one: as \<open>reachable\<close>, with the
  answer of the user limiter computed from the state.
\<close>

inductive capped :: "Config \<Rightarrow> Manager \<Rightarrow> bool" for cfg :: Config where
  capped_new: "capped cfg (NewManager cfg)"
| capped_handlers: "capped cfg m \<Longrightarrow> capped cfg (RegisterHandlers m connectHook disconnectHook)"
| capped_add: "capped cfg m \<Longrightarrow> \<not> id_in_use m clientID \<Longrightarrow>
     capped cfg (snd (AddConnection m ip rateLimit burst clientID now ipAllow))"
| capped_auth: "capped cfg m \<Longrightarrow>
     capped cfg (snd (AuthenticateClient m clientID userID deviceID (UserRateLimiter_Allow m userID)))"
| capped_remove: "capped cfg m \<Longrightarrow> capped cfg (snd (RemoveClient m clientID reason))"
| capped_cleanup: "capped cfg m \<Longrightarrow> capped cfg (snd (cleanupInactiveConnections m clock))"

code_pred capped .

text \<open>
  The set behind \<open>open_sessions\<close>, and two invariants: no user has more open
  authenticated sessions than \<^verbatim>\<open>rate_limit.connections_per_user\<close> (or than 0, when that
  key is negative), and every session of the store lies below \<open>next_ref\<close>.
\<close>

definition auth_set :: "Manager \<Rightarrow> string \<Rightarrow> ref set" where
  "auth_set m u = {r. r < next_ref m \<and> authenticated_as (heap m) u r}"

definition cap_inv :: "Manager \<Rightarrow> bool" where
  "cap_inv m = (\<forall>u. int (card (auth_set m u)) \<le> max 0 (RateLimit_ConnectionsPerUser (config m)))"

definition store_inv :: "Manager \<Rightarrow> bool" where
  "store_inv m = (\<forall>r. heap m r \<noteq> None \<longrightarrow> r < next_ref m)"

text \<open>
  \<open>example_m3\<close> after a sweep at 122 s: the session \<open>c1\<close>, last active at 0 s, has left
  the registry; it is still open and authenticated.
\<close>

definition example_swept :: Manager where
  "example_swept = snd (cleanupInactiveConnections example_m3 (\<lambda>i. 122 * second))"

subsection \<open>auth/jwt.go\<close>

datatype auth_error = ErrInvalidToken | ErrExpiredToken | ErrInvalidIssuer | ErrMissingUserID

text \<open>
  \<^verbatim>\<open>Claims\<close>: the three fields of the gateway, named by their JSON tags, and the
  registered claims the code sets (\<^verbatim>\<open>jwt.RegisteredClaims\<close>); a numeric date that is
  absent is \<open>None\<close>.
\<close>

record Claims =
  user_id :: string
  device_id :: string
  session_id :: string
  Issuer :: string
  ExpiresAt :: "time option"
  IssuedAt :: "time option"
  NotBefore :: "time option"
  JWT_ID :: string

record Authenticator =
  secret :: bytes
  issuer :: string
  expiry :: duration

definition NewAuthenticator :: "Config \<Rightarrow> Authenticator" where
  "NewAuthenticator cfg =
     \<lparr> secret = Auth_JWTSecret cfg, issuer = ''websocket-gateway'',
       expiry = Auth_TokenExpiry cfg \<rparr>"

text \<open>
  The JWT library (\<^verbatim>\<open>github.com/golang-jwt/jwt/v5\<close>) is not part of the repository. It
  is modelled symbolically: a compact token is its signing method, its payload and its
  signature, and the signature of HMAC is a term over the key, the method and the
  payload (no two different inputs give the same signature). \<^verbatim>\<open>NewNumericDate\<close> truncates
  a time to the library's precision, one second. \<^verbatim>\<open>ParseWithClaims\<close> asks the key
  function for the key of the token's method, verifies the signature, and validates the
  time claims against the clock: the token is expired unless the clock is before
  \<^verbatim>\<open>exp\<close>, and not yet valid when the clock is before \<^verbatim>\<open>nbf\<close>. It returns the claims and
  the \<^verbatim>\<open>Valid\<close> flag, or \<open>None\<close> for an error.
\<close>

datatype SigningMethod = HS256 | HS384 | HS512 | RS256 | ES256 | NoneMethod

fun is_HMAC :: "SigningMethod \<Rightarrow> bool" where
  "is_HMAC HS256 = True"
| "is_HMAC HS384 = True"
| "is_HMAC HS512 = True"
| "is_HMAC other = False"

text \<open>
  The payload of a token is the JSON text of the claims, written by \<^verbatim>\<open>json.Marshal\<close> and
  read back by \<^verbatim>\<open>json.Unmarshal\<close>. A Go string is a sequence of bytes; \<^verbatim>\<open>json.Marshal\<close>
  walks it with \<^verbatim>\<open>utf8.DecodeRuneInString\<close>, copies every well-formed UTF-8 sequence
  (escaped or not, the text denotes the same bytes) and writes every byte that starts
  none as U+FFFD, the bytes EF BF BD. \<open>DecodeRuneInString_size\<close> is the size
  \<^verbatim>\<open>DecodeRuneInString\<close> returns on a non-empty string, with 0 for its answer
  \<^verbatim>\<open>(RuneError, 1)\<close>; \<open>json_string s\<close> is the string that the JSON text of \<open>s\<close> denotes;
  \<open>ValidString\<close> is \<^verbatim>\<open>utf8.ValidString\<close>.
\<close>

definition byte_in :: "char \<Rightarrow> nat \<Rightarrow> nat \<Rightarrow> bool" where
  "byte_in b lo hi = (lo \<le> of_char b \<and> (of_char b :: nat) \<le> hi)"

definition accept_rune :: "nat \<Rightarrow> nat \<Rightarrow> nat \<Rightarrow> string \<Rightarrow> nat" where
  "accept_rune sz lo hi s =
     (if length s < sz then 0
      else if \<not> byte_in (s ! 1) lo hi then 0
      else if sz \<le> 2 then 2
      else if \<not> byte_in (s ! 2) 0x80 0xBF then 0
      else if sz \<le> 3 then 3
      else if \<not> byte_in (s ! 3) 0x80 0xBF then 0
      else 4)"

definition DecodeRuneInString_size :: "string \<Rightarrow> nat" where
  "DecodeRuneInString_size s =
     (let s0 = (of_char (s ! 0) :: nat) in
      if s0 < 0x80 then 1
      else if s0 < 0xC2 then 0
      else if s0 \<le> 0xDF then accept_rune 2 0x80 0xBF s
      else if s0 = 0xE0 then accept_rune 3 0xA0 0xBF s
      else if s0 \<le> 0xEC then accept_rune 3 0x80 0xBF s
      else if s0 = 0xED then accept_rune 3 0x80 0x9F s
      else if s0 \<le> 0xEF then accept_rune 3 0x80 0xBF s
      else if s0 = 0xF0 then accept_rune 4 0x90 0xBF s
      else if s0 \<le> 0xF3 then accept_rune 4 0x80 0xBF s
      else if s0 = 0xF4 then accept_rune 4 0x80 0x8F s
      else 0)"

definition RuneError_bytes :: string where
  "RuneError_bytes = [CHR 0xEF, CHR 0xBF, CHR 0xBD]"

text \<open>
  The walk over the string; the first argument counts the bytes still to copy of the
  sequence the walk is in.
\<close>

fun json_string_from :: "nat \<Rightarrow> string \<Rightarrow> string" where
  "json_string_from k [] = []"
| "json_string_from (Suc k) (b # rest) = b # json_string_from k rest"
| "json_string_from 0 (b # rest) =
     (case DecodeRuneInString_size (b # rest) of
        0 \<Rightarrow> RuneError_bytes @ json_string_from 0 rest
      | Suc k \<Rightarrow> b # json_string_from k rest)"

definition json_string :: "string \<Rightarrow> string" where
  "json_string s = json_string_from 0 s"

fun ValidString_from :: "nat \<Rightarrow> string \<Rightarrow> bool" where
  "ValidString_from k [] = True"
| "ValidString_from (Suc k) (b # rest) = ValidString_from k rest"
| "ValidString_from 0 (b # rest) =
     (case DecodeRuneInString_size (b # rest) of
        0 \<Rightarrow> False
      | Suc k \<Rightarrow> ValidString_from k rest)"

definition ValidString :: "string \<Rightarrow> bool" where
  "ValidString s = ValidString_from 0 s"

text \<open>The claims that the payload of a token denotes: every string as JSON carries it.\<close>

definition Marshal_Claims :: "Claims \<Rightarrow> Claims" where
  "Marshal_Claims claims =
     claims\<lparr> user_id := json_string (user_id claims),
             device_id := json_string (device_id claims),
             session_id := json_string (session_id claims),
             Issuer := json_string (Issuer claims),
             JWT_ID := json_string (JWT_ID claims) \<rparr>"

datatype signature = Mac bytes SigningMethod Claims

datatype token_string = NotAToken bytes | Compact SigningMethod Claims signature

definition TimePrecision :: duration where
  "TimePrecision = second"

definition NewNumericDate :: "time \<Rightarrow> time" where
  "NewNumericDate t = t - t mod TimePrecision"

definition SignedString :: "SigningMethod \<Rightarrow> bytes \<Rightarrow> Claims \<Rightarrow> token_string" where
  "SignedString method key claims =
     Compact method (Marshal_Claims claims) (Mac key method (Marshal_Claims claims))"

definition time_valid :: "Claims \<Rightarrow> time \<Rightarrow> bool" where
  "time_valid claims now =
     ((case ExpiresAt claims of None \<Rightarrow> True | Some exp \<Rightarrow> now < exp)
      \<and> (case NotBefore claims of None \<Rightarrow> True | Some nbf \<Rightarrow> nbf \<le> now))"

definition ParseWithClaims ::
  "time \<Rightarrow> token_string \<Rightarrow> (SigningMethod \<Rightarrow> bytes option) \<Rightarrow> (Claims \<times> bool) option" where
  "ParseWithClaims now tokenString keyFunc =
     (case tokenString of
        NotAToken raw \<Rightarrow> None
      | Compact method claims sig \<Rightarrow>
          (case keyFunc method of
             None \<Rightarrow> None
           | Some key \<Rightarrow>
               if sig \<noteq> Mac key method claims then None
               else if \<not> time_valid claims now then None
               else Some (claims, True)))"

text \<open>
  \<^verbatim>\<open>ValidateToken\<close> and \<^verbatim>\<open>GenerateToken\<close>. \<open>now\<close> is the clock at the call; \<open>itoa\<close>
  prints the nanoseconds of the clock for the token id.
\<close>

definition ValidateToken :: "Authenticator \<Rightarrow> time \<Rightarrow> token_string \<Rightarrow> auth_error + Claims" where
  "ValidateToken a now tokenString =
     (case ParseWithClaims now tokenString
             (\<lambda>method. if is_HMAC method then Some (secret a) else None) of
        None \<Rightarrow> Inl ErrInvalidToken
      | Some (claims, valid) \<Rightarrow>
          if valid then
            (if Issuer claims \<noteq> issuer a then Inl ErrInvalidIssuer
             else if user_id claims = [] then Inl ErrMissingUserID
             else Inr claims)
          else Inl ErrInvalidToken)"

definition GenerateToken ::
  "(int \<Rightarrow> string) \<Rightarrow> Authenticator \<Rightarrow> time \<Rightarrow> string \<Rightarrow> string \<Rightarrow> token_string" where
  "GenerateToken itoa a now userID deviceID =
     SignedString HS256 (secret a)
       \<lparr> user_id = userID, device_id = deviceID, session_id = [],
         Issuer = issuer a,
         ExpiresAt = Some (NewNumericDate (now + expiry a)),
         IssuedAt = Some (NewNumericDate now),
         NotBefore = Some (NewNumericDate now),
         JWT_ID = userID @ ''-'' @ itoa now \<rparr>"

definition example_itoa :: "int \<Rightarrow> string" where
  "example_itoa n = (if n = 0 then ''0'' else ''n'')"

definition hour_authenticator :: Authenticator where
  "hour_authenticator = NewAuthenticator (example_config\<lparr> Auth_TokenExpiry := 3600 * second \<rparr>)"

definition nanosecond_authenticator :: Authenticator where
  "nanosecond_authenticator = NewAuthenticator (example_config\<lparr> Auth_TokenExpiry := 1 \<rparr>)"

section \<open>Properties\<close>

subsection \<open>The outbound queue\<close>

lemma client_inv_NewClient: "client_inv (NewClient clientID ip shardID rateLimit burst now)"
  by (simp add: client_inv_def NewClient_def)

lemma client_inv_WriteMessage: "client_inv c \<Longrightarrow> client_inv (snd (WriteMessage c message))"
  by (simp add: client_inv_def WriteMessage_def SendCapacity_def)

lemma client_inv_Close: "client_inv c \<Longrightarrow> client_inv (Close c reason)"
  by (simp add: client_inv_def Close_def)

lemma client_inv_cleanup: "client_inv c \<Longrightarrow> client_inv (cleanup c)"
  by (simp add: client_inv_def cleanup_def)

lemma write_all_replicate:
  "n \<le> SendCapacity \<Longrightarrow> \<not> closing c \<Longrightarrow> \<not> Send_closed c \<Longrightarrow> Send c = [] \<Longrightarrow>
   Send (write_all c (replicate n m)) = replicate n m
   \<and> \<not> closing (write_all c (replicate n m))
   \<and> \<not> Send_closed (write_all c (replicate n m))"
proof (induction n)
  case 0
  then show ?case by (simp add: write_all_def)
next
  case (Suc n)
  then have ih: "Send (write_all c (replicate n m)) = replicate n m"
      "\<not> closing (write_all c (replicate n m))"
      "\<not> Send_closed (write_all c (replicate n m))"
    by simp_all
  have "replicate (Suc n) m = replicate n m @ [m]"
    by (simp add: replicate_append_same)
  then have step: "write_all c (replicate (Suc n) m) = snd (WriteMessage (write_all c (replicate n m)) m)"
    unfolding write_all_def by (simp only: foldl_append foldl.simps)
  from Suc.prems have "n < SendCapacity" by simp
  with ih show ?case
    unfolding step by (simp add: WriteMessage_def replicate_append_same)
qed

lemma full_client_facts:
  "Send full_client = replicate 256 ''m''" "\<not> closing full_client" "\<not> Send_closed full_client"
  using write_all_replicate [of 256 "NewClient ''c1'' ''10.0.0.1'' 0 100 150 0" "''m''"]
  by (simp_all add: full_client_def SendCapacity_def NewClient_def)

lemma full_client_inv: "client_inv full_client"
  by (simp add: client_inv_def full_client_facts SendCapacity_def)

lemma full_closing_client_facts:
  "Send full_closing_client = replicate 256 ''m''" "closing full_closing_client"
  "client_inv full_closing_client"
  by (simp_all add: full_closing_client_def Close_def full_client_facts client_inv_def
      SendCapacity_def)

text \<open>
  C3, as the claim states it, fails: \<^verbatim>\<open>WriteMessage\<close> tests \<^verbatim>\<open>c.closing\<close> before it
  looks at the channel. The session \<open>full_closing_client\<close> (256 messages written, then
  closed) holds 256 messages, and a further \<^verbatim>\<open>WriteMessage\<close> returns the
  client-closed error, not the client-slow one; the session is not open afterwards.
\<close>

theorem WriteMessage_full_closing_counterexample:
  "length (Send full_closing_client) = 256
   \<and> fst (WriteMessage full_closing_client ''x'') = Some ErrClientClosed
   \<and> fst (WriteMessage full_closing_client ''x'') \<noteq> Some ErrClientSlow
   \<and> closing (snd (WriteMessage full_closing_client ''x''))"
  by (simp add: full_closing_client_facts WriteMessage_def)

text \<open>
  C3, amended. For every session that satisfies the session invariant:
  if it is not closing and its queue holds 256 messages, \<^verbatim>\<open>WriteMessage\<close> returns
  \<^verbatim>\<open>ErrClientSlow\<close> and leaves the session as it was (the message is dropped, the
  session is still open, the queue still holds 256);
  if it is closing, \<^verbatim>\<open>WriteMessage\<close> returns \<^verbatim>\<open>ErrClientClosed\<close> and leaves the session
  as it was, whatever the queue holds;
  if it is not closing and the queue is not full, \<^verbatim>\<open>WriteMessage\<close> appends the message
  to the queue and returns no error;
  in every case the queue holds at most 256 messages afterwards. The model is a total
  function: no branch waits.
\<close>

theorem WriteMessage_backpressure:
  assumes "client_inv c"
  shows "(\<not> closing c \<and> length (Send c) = 256 \<longrightarrow>
            WriteMessage c message = (Some ErrClientSlow, c))
       \<and> (closing c \<longrightarrow> WriteMessage c message = (Some ErrClientClosed, c))
       \<and> (\<not> closing c \<and> length (Send c) < 256 \<longrightarrow>
            fst (WriteMessage c message) = None
            \<and> Send (snd (WriteMessage c message)) = Send c @ [message]
            \<and> \<not> closing (snd (WriteMessage c message)))
       \<and> length (Send (snd (WriteMessage c message))) \<le> 256
       \<and> client_inv (snd (WriteMessage c message))"
  using assms by (simp add: WriteMessage_def client_inv_def SendCapacity_def)

theorem WriteMessage_backpressure_witness:
  "client_inv full_client \<and> \<not> closing full_client \<and> length (Send full_client) = 256
   \<and> WriteMessage full_client ''x'' = (Some ErrClientSlow, full_client)
   \<and> length (Send (snd (WriteMessage full_client ''x''))) = 256"
  using WriteMessage_backpressure [OF full_client_inv, of "''x''"]
  by (simp add: full_client_facts full_client_inv)

subsection \<open>Dispatch of bus messages\<close>

text \<open>
  The first half of C4 holds: an envelope that carries this node's id is dropped without
  a log line and no handler is called; in particular every envelope this node
  publishes is dropped when it comes back.
\<close>

lemma processMessage_own_node:
  "Unmarshal_Envelope payload = Some e \<Longrightarrow> NodeID e = nodeID r \<Longrightarrow>
   processMessage r payload = SkippedOwnMessage \<and> \<not> handler_fired (processMessage r payload)"
  by (simp add: processMessage_def)

lemma Unmarshal_Envelope_Publish:
  "Unmarshal_Envelope (Publish r base64 nowMillis msg) =
     (if - (2 ^ 63) \<le> nowMillis \<and> nowMillis < 2 ^ 63
      then Some \<lparr> NodeID = nodeID r, env_Timestamp = nowMillis,
                   Message = Some (JString (base64 msg)) \<rparr>
      else None)"
  by (simp add: Unmarshal_Envelope_def Publish_def string_member_def int64_member_def
      raw_member_def members_of_def ascii_upper_def)

lemma processMessage_own_publication:
  "\<not> handler_fired (processMessage r (Publish r base64 nowMillis msg))"
  by (simp add: processMessage_def Unmarshal_Envelope_Publish)

text \<open>
  The dispatch itself is as the claim says: when the envelope comes from another node,
  its inner message decodes and a handler is registered for its type, that handler is
  called.
\<close>

lemma processMessage_dispatch:
  "Unmarshal_Envelope payload = Some e \<Longrightarrow> NodeID e \<noteq> nodeID r \<Longrightarrow>
   Unmarshal_BaseMessage (Message e) = Some b \<Longrightarrow> map_of (handlers r) (Type b) = Some h \<Longrightarrow>
   processMessage r payload = Invoked h b"
  by (simp add: processMessage_def)

lemma processMessage_object_envelope:
  "processMessage example_pubsub example_object_envelope
     = Invoked 7 \<lparr> Type = ''presence'', MessageID = [], Timestamp = 1 \<rparr>"
  by (simp add: processMessage_def example_object_envelope_def example_presence_def
      Unmarshal_Envelope_def Unmarshal_BaseMessage_def string_member_def int64_member_def
      raw_member_def members_of_def ascii_upper_def example_pubsub_def RegisterHandler_def)

text \<open>
  But no envelope that \<^verbatim>\<open>Publish\<close> emits has an inner message that decodes: the
  \<open>message\<close> member is a JSON string, and a JSON string does not unmarshal into
  \<^verbatim>\<open>BaseMessage\<close>. Whatever the message, the clock and the handlers, the receiving node
  calls no handler for what another node published.
\<close>

lemma processMessage_peer_publication:
  "\<not> handler_fired (processMessage r (Publish r' base64 nowMillis msg))"
  by (simp add: processMessage_def Unmarshal_Envelope_Publish Unmarshal_BaseMessage_def)

text \<open>
  C4 at a concrete input. Node \<open>n2\<close> publishes a presence message; node \<open>n1\<close> has a
  handler registered for the type \<open>presence\<close>. The envelope decodes and carries the id
  of another node, but \<^verbatim>\<open>processMessage\<close> on \<open>n1\<close> ends in the inner parse error and
  the handler is not called.
\<close>

theorem processMessage_published_envelope_example:
  "map_of (handlers example_pubsub) ''presence'' = Some 7
   \<and> map_option NodeID (Unmarshal_Envelope (Publish peer_pubsub example_base64 1 example_presence))
       = Some ''n2''
   \<and> nodeID example_pubsub = ''n1''
   \<and> processMessage example_pubsub (Publish peer_pubsub example_base64 1 example_presence)
       = InnerParseError
   \<and> \<not> handler_fired
         (processMessage example_pubsub (Publish peer_pubsub example_base64 1 example_presence))"
  by (simp add: processMessage_def Unmarshal_Envelope_Publish Unmarshal_BaseMessage_def
      example_pubsub_def peer_pubsub_def RegisterHandler_def)

subsection \<open>The global connection counter\<close>

lemma sum_list_map_update:
  fixes f :: "'a \<Rightarrow> int"
  shows "i < length xs \<Longrightarrow> sum_list (map f (xs[i := y])) = sum_list (map f xs) - f (xs ! i) + f y"
proof (induction xs arbitrary: i)
  case Nil
  then show ?case by simp
next
  case (Cons x xs)
  then show ?case by (cases i) auto
qed

lemma length_update_fresh:
  "k \<notin> fst ` set al \<Longrightarrow> length (AList.update k v al) = Suc (length al)"
  by (induction al) auto

lemma length_delete_present:
  "distinct (map fst al) \<Longrightarrow> k \<in> fst ` set al \<Longrightarrow> Suc (length (AList.delete k al)) = length al"
proof (induction al)
  case Nil
  then show ?case by simp
next
  case (Cons a al)
  then show ?case by (cases "fst a = k") (auto simp: image_iff)
qed

lemma clients_delete_user_mapping [simp]: "clients (delete_user_mapping s c) = clients s"
  by (simp add: delete_user_mapping_def split: option.splits)

lemma stats_delete_user_mapping [simp]: "stats (delete_user_mapping s c) = stats s"
  by (simp add: delete_user_mapping_def split: option.splits)


lemma list_all_update:
  "list_all P xs \<Longrightarrow> P y \<Longrightarrow> list_all P (xs[i := y])"
  by (induction xs arbitrary: i) (auto split: nat.splits)

lemma counter_inv_set_shard:
  assumes "counter_inv m" "shard_at m i = Some s"
    "distinct (map fst (clients s'))"
    "int (length (clients s')) = int (length (clients s)) + d"
  shows "primary_total (set_shard m i s') = primary_total m + d"
    "primary_maps_ok (set_shard m i s')"
proof -
  from assms(2) have i: "unat i < length (shards m)" and s: "shards m ! unat i = s"
    by (auto simp: shard_at_def split: if_splits)
  show "primary_total (set_shard m i s') = primary_total m + d"
    using i s assms(4) by (simp add: primary_total_def set_shard_def sum_list_map_update)
  show "primary_maps_ok (set_shard m i s')"
    using assms(1,3) by (simp add: counter_inv_def primary_maps_ok_def set_shard_def list_all_update)
qed

lemma shard_at_mem: "shard_at m i = Some s \<Longrightarrow> s \<in> set (shards m)"
  by (auto simp: shard_at_def split: if_splits)

lemma not_in_use_fresh:
  "\<not> id_in_use m k \<Longrightarrow> s \<in> set (shards m) \<Longrightarrow> k \<notin> fst ` set (clients s)"
  by (force simp: id_in_use_def list_ex_iff map_of_eq_None_iff)

lemma counter_inv_AddConnection:
  assumes inv: "counter_inv m" and fresh: "\<not> id_in_use m clientID"
  shows "counter_inv (snd (AddConnection m ip rateLimit burst clientID now ipAllow))"
proof (cases "globalConns m \<ge> maxConns m \<or> \<not> ipAllow \<or> shard_at m (getShardID m clientID) = None")
  case True
  then show ?thesis using inv by (auto simp: AddConnection_def Let_def)
next
  case False
  then obtain s where s: "shard_at m (getShardID m clientID) = Some s" by auto
  let ?s' = "s\<lparr> clients := AList.update clientID (next_ref m) (clients s),
                  stats := (stats s)\<lparr> TotalConnections := TotalConnections (stats s) + 1,
                      ActiveConnections := ActiveConnections (stats s) + 1 \<rparr> \<rparr>"
  have k: "clientID \<notin> fst ` set (clients s)"
    using not_in_use_fresh [OF fresh shard_at_mem [OF s]] .
  have d: "distinct (map fst (clients s))"
    using inv shard_at_mem [OF s] by (auto simp: counter_inv_def primary_maps_ok_def list_all_iff)
  have d': "distinct (map fst (clients ?s'))" using d by (simp add: distinct_update)
  have l: "int (length (clients ?s')) = int (length (clients s)) + 1"
    using k by (simp add: length_update_fresh)
  note cs = counter_inv_set_shard [OF inv s d' l]
  have "snd (AddConnection m ip rateLimit burst clientID now ipAllow) =
     (set_shard m (getShardID m clientID) ?s')\<lparr>
        heap := (heap m)(next_ref m \<mapsto> NewClient clientID ip (getShardID m clientID) rateLimit burst now),
        next_ref := Suc (next_ref m),
        globalConns := globalConns m + 1,
        hook_log := (if onConnect m then hook_log m @ [ConnectCall (next_ref m)] else hook_log m) \<rparr>"
    using False s by (simp add: AddConnection_def Let_def Shard_AddClient_def NewClient_def)
  then show ?thesis
    using cs inv False by (auto simp: counter_inv_def primary_total_def primary_maps_ok_def set_shard_def)
qed


lemma counter_inv_RegisterHandlers:
  "counter_inv m \<Longrightarrow> counter_inv (RegisterHandlers m a b)"
  by (simp add: counter_inv_def RegisterHandlers_def primary_total_def primary_maps_ok_def)

lemma counter_inv_AuthenticateClient:
  assumes inv: "counter_inv m"
  shows "counter_inv (snd (AuthenticateClient m clientID userID deviceID userAllow))"
proof (cases "shard_at m (getShardID m clientID)")
  case None
  then show ?thesis using inv by (simp add: AuthenticateClient_def)
next
  case (Some s)
  have d: "distinct (map fst (clients s))"
    using inv shard_at_mem [OF Some] by (auto simp: counter_inv_def primary_maps_ok_def list_all_iff)
  have upd: "counter_inv ((set_shard m (getShardID m clientID) s')\<lparr> heap := h \<rparr>)"
    if "clients s' = clients s" for s' h
  proof -
    have "primary_total (set_shard m (getShardID m clientID) s') = primary_total m + 0"
      "primary_maps_ok (set_shard m (getShardID m clientID) s')"
      using counter_inv_set_shard [OF inv Some, of s' 0] d that by simp_all
    then show ?thesis
      using inv by (simp add: counter_inv_def primary_total_def primary_maps_ok_def set_shard_def)
  qed
  show ?thesis
    using inv Some upd
    by (auto simp: AuthenticateClient_def Let_def RegisterAuthenticatedClient_def
        split: option.splits sum.splits)
qed

lemma map_of_Some_key: "map_of al k = Some v \<Longrightarrow> k \<in> fst ` set al"
  by (metis domI dom_map_of_conv_image_fst)

lemma counter_inv_RemoveClient:
  assumes inv: "counter_inv m"
  shows "counter_inv (snd (RemoveClient m clientID reason))"
proof (cases "shard_at m (getShardID m clientID)")
  case None
  then show ?thesis using inv by (simp add: RemoveClient_def)
next
  case (Some s)
  have d: "distinct (map fst (clients s))"
    using inv shard_at_mem [OF Some] by (auto simp: counter_inv_def primary_maps_ok_def list_all_iff)
  have same: "set_shard m (getShardID m clientID) s = m"
    using Some by (auto simp: set_shard_def shard_at_def split: if_splits)
  show ?thesis
  proof (cases "map_of (clients s) clientID")
    case None
    then show ?thesis using inv Some same by (simp add: RemoveClient_def Shard_RemoveClient_def)
  next
    case r: (Some r)
    show ?thesis
    proof (cases "heap m r")
      case None
      then show ?thesis using inv Some r by (simp add: RemoveClient_def Shard_RemoveClient_def)
    next
      case c: (Some c)
      let ?s1 = "delete_user_mapping (s\<lparr> clients := AList.delete clientID (clients s) \<rparr>) c"
      let ?s' = "?s1\<lparr> stats := (stats ?s1)\<lparr> ActiveConnections := ActiveConnections (stats ?s1) - 1,
                             Disconnections := Disconnections (stats ?s1) + 1 \<rparr> \<rparr>"
      have d': "distinct (map fst (clients ?s'))" using d by (simp add: distinct_delete)
      have "Suc (length (AList.delete clientID (clients s))) = length (clients s)"
        using length_delete_present [OF d map_of_Some_key [OF r]] .
      then have l: "int (length (clients ?s')) = int (length (clients s)) + (- 1)" by simp
      note cs = counter_inv_set_shard [OF inv Some d' l]
      have "snd (RemoveClient m clientID reason) =
        (set_shard m (getShardID m clientID) ?s')\<lparr>
           globalConns := globalConns m - 1,
           heap := (heap m)(r \<mapsto> Close c reason),
           hook_log := (if onDisconnect m then hook_log m @ [DisconnectCall r reason]
                        else hook_log m) \<rparr>"
        using Some r c by (simp add: RemoveClient_def Shard_RemoveClient_def Let_def)
      then show ?thesis
        using cs inv by (simp add: counter_inv_def primary_total_def primary_maps_ok_def set_shard_def)
    qed
  qed
qed

lemma CleanupInactive_loop_sizes:
  assumes "CleanupInactive_loop h timeout now es s removed = Inr (s', removed')"
    "distinct (map fst es)" "set es \<subseteq> set (clients s)" "distinct (map fst (clients s))"
  shows "distinct (map fst (clients s'))
       \<and> int (length (clients s')) + int (length removed') = int (length (clients s)) + int (length removed)"
  using assms
proof (induction es arbitrary: s removed)
  case Nil
  then show ?case by simp
next
  case (Cons e es)
  obtain cid r where e: "e = (cid, r)" by (cases e)
  from Cons.prems(1) e obtain c where c: "h r = Some c"
    by (auto split: option.splits)
  show ?case
  proof (cases "now - LastActivity c > timeout")
    case False
    with Cons.prems e c have "CleanupInactive_loop h timeout now es s removed = Inr (s', removed')"
      by simp
    from Cons.IH [OF this] Cons.prems show ?thesis by simp
  next
    case True
    let ?s1 = "delete_user_mapping (s\<lparr> clients := AList.delete cid (clients s) \<rparr>) c"
    from True Cons.prems(1) e c
    have run: "CleanupInactive_loop h timeout now es ?s1 (removed @ [cid]) = Inr (s', removed')"
      by simp
    have sub: "set es \<subseteq> set (clients ?s1)"
    proof
      fix p assume p: "p \<in> set es"
      with Cons.prems(2) e have "fst p \<noteq> cid" by (auto simp: image_iff)
      moreover from p Cons.prems(3) have "p \<in> set (clients s)" by auto
      ultimately show "p \<in> set (clients ?s1)" by (cases p) (auto simp: AList.delete_eq)
    qed
    have d1: "distinct (map fst (clients ?s1))"
      using Cons.prems(4) by (simp add: distinct_delete)
    have "cid \<in> fst ` set (clients s)"
      using Cons.prems(3) e by (force simp: image_iff)
    from length_delete_present [OF Cons.prems(4) this]
    have len: "int (length (clients ?s1)) = int (length (clients s)) - 1" by simp
    from Cons.IH [OF run _ sub d1] Cons.prems(2) len show ?thesis by simp
  qed
qed

lemma CleanupInactive_sizes:
  assumes "CleanupInactive h s timeout now = Inr (s', removed)" "distinct (map fst (clients s))"
  shows "distinct (map fst (clients s'))"
    "int (length (clients s')) = int (length (clients s)) - int (length removed)"
proof -
  from assms(1) obtain s1 where run: "CleanupInactive_loop h timeout now (clients s) s [] = Inr (s1, removed)"
    and s': "clients s' = clients s1"
    by (auto simp: CleanupInactive_def split: sum.splits)
  from CleanupInactive_loop_sizes [OF run assms(2) subset_refl assms(2)] s'
  show "distinct (map fst (clients s'))"
    "int (length (clients s')) = int (length (clients s)) - int (length removed)"
    by simp_all
qed

lemma report_removed_effect:
  "shards (report_removed m shard ids) = shards m
   \<and> globalConns (report_removed m shard ids) = globalConns m - int (length ids)
   \<and> heap (report_removed m shard ids) = heap m
   \<and> maxConns (report_removed m shard ids) = maxConns m"
  by (induction ids arbitrary: m) (auto simp: Let_def split: option.splits)

lemma counter_inv_cleanup_shards:
  assumes "drop i (shards m) = ss" "counter_inv m"
  shows "counter_inv (snd (cleanup_shards timeout clock i ss m))"
  using assms
proof (induction ss arbitrary: i m)
  case Nil
  then show ?case by simp
next
  case (Cons shard rest)
  from Cons.prems(1) have i: "i < length (shards m)"
    by (metis drop_eq_Nil list.distinct(1) not_le)
  from Cons.prems(1) i have at: "shards m ! i = shard"
    by (metis Cons_nth_drop_Suc list.inject)
  from Cons.prems(1) i have rest: "drop (Suc i) (shards m) = rest"
    by (metis Cons_nth_drop_Suc list.inject)
  show ?case
  proof (cases "CleanupInactive (heap m) shard timeout (clock i)")
    case (Inl e)
    then show ?thesis using Cons.prems(2) by simp
  next
    case (Inr res)
    obtain shard' removed where res: "res = (shard', removed)" by (cases res)
    let ?m1 = "m\<lparr> shards := (shards m)[i := shard'] \<rparr>"
    let ?m2 = "report_removed ?m1 shard' removed"
    have d: "distinct (map fst (clients shard))"
      using Cons.prems(2) i at by (auto simp: counter_inv_def primary_maps_ok_def list_all_iff)
    note sz = CleanupInactive_sizes [OF Inr [unfolded res] d]
    have sh: "shards ?m2 = (shards m)[i := shard']"
      and gc: "globalConns ?m2 = globalConns m - int (length removed)"
      and mc: "maxConns ?m2 = maxConns m"
      using report_removed_effect [of ?m1 shard' removed] by simp_all
    have "primary_total ?m2 = primary_total m - int (length removed)"
      using i at sz(2) by (simp add: primary_total_def sh sum_list_map_update)
    moreover have "primary_maps_ok ?m2"
      using Cons.prems(2) sz(1) by (simp add: primary_maps_ok_def counter_inv_def sh list_all_update)
    ultimately have inv2: "counter_inv ?m2"
      using Cons.prems(2) gc mc by (simp add: counter_inv_def)
    have dr: "drop (Suc i) (shards ?m2) = rest"
      using rest by (simp add: sh)
    from Cons.IH [OF dr inv2] Inr res show ?thesis by simp
  qed
qed

lemma counter_inv_cleanup:
  "counter_inv m \<Longrightarrow> counter_inv (snd (cleanupInactiveConnections m clock))"
  by (simp add: cleanupInactiveConnections_def counter_inv_cleanup_shards)

lemma counter_inv_NewManager: "counter_inv (NewManager cfg)"
  by (simp add: counter_inv_def NewManager_def Let_def primary_total_def primary_maps_ok_def
      list_all_iff NewShard_def o_def)

lemma reachable_counter_inv: "reachable cfg m \<Longrightarrow> counter_inv m"
  by (induction rule: reachable.induct)
    (simp_all add: counter_inv_NewManager counter_inv_RegisterHandlers counter_inv_AddConnection
      counter_inv_AuthenticateClient counter_inv_RemoveClient counter_inv_cleanup)


lemma maxConns_cleanup_shards:
  "maxConns (snd (cleanup_shards timeout clock i ss m)) = maxConns m"
proof (induction ss arbitrary: i m)
  case Nil
  then show ?case by simp
next
  case (Cons shard rest)
  show ?case
    by (cases "CleanupInactive (heap m) shard timeout (clock i)")
      (auto simp: Cons.IH report_removed_effect)
qed

lemma reachable_maxConns: "reachable cfg m \<Longrightarrow> maxConns m = RateLimit_GlobalConnections cfg"
proof (induction rule: reachable.induct)
  case reach_new
  then show ?case by (simp add: NewManager_def Let_def)
next
  case (reach_handlers m connectHook disconnectHook)
  then show ?case by (simp add: RegisterHandlers_def)
next
  case (reach_add m clientID ip rateLimit burst now ipAllow)
  then show ?case
    by (auto simp: AddConnection_def Let_def set_shard_def split: option.splits sum.splits)
next
  case (reach_auth m clientID userID deviceID userAllow)
  then show ?case
    by (auto simp: AuthenticateClient_def Let_def set_shard_def split: option.splits sum.splits)
next
  case (reach_remove m clientID reason)
  then show ?case
    by (auto simp: RemoveClient_def Let_def set_shard_def split: option.splits sum.splits)
next
  case (reach_cleanup m clock)
  then show ?case by (simp add: cleanupInactiveConnections_def maxConns_cleanup_shards)
qed

lemma AddConnection_failure_unchanged:
  "isl (fst (AddConnection m ip rateLimit burst clientID now ipAllow)) \<Longrightarrow>
   snd (AddConnection m ip rateLimit burst clientID now ipAllow) = m"
  by (auto simp: AddConnection_def Let_def split: option.splits sum.splits if_splits)

lemma AddConnection_success_counter:
  "\<not> isl (fst (AddConnection m ip rateLimit burst clientID now ipAllow)) \<Longrightarrow>
   globalConns (snd (AddConnection m ip rateLimit burst clientID now ipAllow)) = globalConns m + 1"
  by (auto simp: AddConnection_def Let_def set_shard_def split: option.splits sum.splits if_splits)

lemma set_shard_same: "shard_at m i = Some s \<Longrightarrow> set_shard m i s = m"
  by (auto simp: set_shard_def shard_at_def split: if_splits)

lemma RemoveClient_absent_unchanged:
  "GetClient m clientID = Inr None \<Longrightarrow> RemoveClient m clientID reason = (None, m)"
  by (auto simp: GetClient_def RemoveClient_def Shard_RemoveClient_def Shard_GetClient_def
      set_shard_same split: option.splits)

lemma RemoveClient_present_counter:
  "GetClient m clientID = Inr (Some r) \<Longrightarrow> fst (RemoveClient m clientID reason) = None \<Longrightarrow>
   globalConns (snd (RemoveClient m clientID reason)) = globalConns m - 1"
  by (auto simp: GetClient_def RemoveClient_def Shard_RemoveClient_def Shard_GetClient_def
      Let_def set_shard_def split: option.splits)

text \<open>
  C5. At every state reachable from \<^verbatim>\<open>NewManager\<close> by any sequence of
  \<^verbatim>\<open>AddConnection\<close>, \<^verbatim>\<open>AuthenticateClient\<close>, \<^verbatim>\<open>RemoveClient\<close> and cleanup sweeps
  (with \<^verbatim>\<open>uuid.New()\<close> returning an id that no registered session has), the global
  counter equals the sum over all shards of the size of the primary map, and lies
  between 0 and the configured ceiling. \<^verbatim>\<open>AddConnection\<close> changes nothing when it
  fails and raises the counter by one when it succeeds; \<^verbatim>\<open>RemoveClient\<close> changes
  nothing for an id that is not registered and lowers the counter and the sum by one
  for a registered one; a sweep lowers the counter by the number of sessions it takes
  out of the primary maps.
\<close>

theorem global_counter_matches_primary_maps:
  assumes "reachable cfg m"
  shows "globalConns m = primary_total m
       \<and> 0 \<le> globalConns m \<and> globalConns m \<le> max 0 (RateLimit_GlobalConnections cfg)
       \<and> (isl (fst (AddConnection m ip rateLimit burst clientID now ipAllow)) \<longrightarrow>
            snd (AddConnection m ip rateLimit burst clientID now ipAllow) = m)
       \<and> (\<not> isl (fst (AddConnection m ip rateLimit burst clientID now ipAllow)) \<longrightarrow>
            globalConns (snd (AddConnection m ip rateLimit burst clientID now ipAllow))
              = globalConns m + 1)
       \<and> (GetClient m removedID = Inr None \<longrightarrow> RemoveClient m removedID reason = (None, m))
       \<and> (GetClient m removedID = Inr (Some r) \<and> fst (RemoveClient m removedID reason) = None \<longrightarrow>
            globalConns (snd (RemoveClient m removedID reason)) = globalConns m - 1
            \<and> primary_total (snd (RemoveClient m removedID reason)) = primary_total m - 1)
       \<and> globalConns m - globalConns (snd (cleanupInactiveConnections m clock))
            = primary_total m - primary_total (snd (cleanupInactiveConnections m clock))"
proof -
  note inv = reachable_counter_inv [OF assms]
  have eq: "globalConns m = primary_total m" using inv by (simp add: counter_inv_def)
  have "0 \<le> primary_total m" unfolding primary_total_def by (rule sum_list_nonneg) auto
  then have nonneg: "0 \<le> globalConns m" using eq by simp
  have le: "globalConns m \<le> max 0 (RateLimit_GlobalConnections cfg)"
    using inv reachable_maxConns [OF assms] by (simp add: counter_inv_def)
  have rem: "globalConns (snd (RemoveClient m removedID reason))
      = primary_total (snd (RemoveClient m removedID reason))"
    using reachable_counter_inv [OF reach_remove [OF assms]] by (simp add: counter_inv_def)
  have cl: "globalConns (snd (cleanupInactiveConnections m clock))
      = primary_total (snd (cleanupInactiveConnections m clock))"
    using reachable_counter_inv [OF reach_cleanup [OF assms]] by (simp add: counter_inv_def)
  have rm: "globalConns (snd (RemoveClient m removedID reason)) = globalConns m - 1
       \<and> primary_total (snd (RemoveClient m removedID reason)) = primary_total m - 1"
    if "GetClient m removedID = Inr (Some r) \<and> fst (RemoveClient m removedID reason) = None"
    using RemoveClient_present_counter [of m removedID r reason] that rem eq by simp
  have sweep: "globalConns m - globalConns (snd (cleanupInactiveConnections m clock))
      = primary_total m - primary_total (snd (cleanupInactiveConnections m clock))"
    using eq cl by simp
  show ?thesis
    using eq nonneg le rm sweep
      AddConnection_failure_unchanged [of m ip rateLimit burst clientID now ipAllow]
      AddConnection_success_counter [of m ip rateLimit burst clientID now ipAllow]
      RemoveClient_absent_unchanged [of m removedID reason]
    by blast
qed

lemma example_manager_eq:
  "example_manager =
     \<lparr> shards = [NewShard 0], shardCount = 1, shardMask = 0, config = example_config,
       globalConns = 0, maxConns = 2, heap = Map.empty, next_ref = 0,
       onConnect = True, onDisconnect = True, hook_log = [] \<rparr>"
  by (simp add: example_manager_def RegisterHandlers_def NewManager_def example_config_def
      setDefaults_def nextPowerOfTwo_def Let_def)

lemma getShardID_mask0 [simp]: "shardMask m = 0 \<Longrightarrow> getShardID m key = 0"
  by (simp add: getShardID_def)

lemma example_m1_eq:
  "example_m1 =
     \<lparr> shards = [(NewShard 0)\<lparr> clients := [(''c1'', 0)],
                    stats := (stats (NewShard 0))\<lparr> TotalConnections := 1, ActiveConnections := 1 \<rparr> \<rparr>],
       shardCount = 1, shardMask = 0, config = example_config,
       globalConns = 1, maxConns = 2,
       heap = [0 \<mapsto> NewClient ''c1'' ''1.2.3.4'' 0 100 150 0], next_ref = 1,
       onConnect = True, onDisconnect = True, hook_log = [ConnectCall 0] \<rparr>"
  by (simp add: example_m1_def example_manager_eq AddConnection_def shard_at_def set_shard_def
      Shard_AddClient_def NewShard_def NewClient_def Let_def)

lemma example_m2_eq:
  "example_m2 =
     \<lparr> shards = [(NewShard 0)\<lparr> clients := [(''c1'', 0), (''c2'', 1)],
                    stats := (stats (NewShard 0))\<lparr> TotalConnections := 2, ActiveConnections := 2 \<rparr> \<rparr>],
       shardCount = 1, shardMask = 0, config = example_config,
       globalConns = 2, maxConns = 2,
       heap = [0 \<mapsto> NewClient ''c1'' ''1.2.3.4'' 0 100 150 0,
               1 \<mapsto> NewClient ''c2'' ''1.2.3.5'' 0 100 150 (5 * second)], next_ref = 2,
       onConnect = True, onDisconnect = True, hook_log = [ConnectCall 0, ConnectCall 1] \<rparr>"
  by (simp add: example_m2_def example_m1_eq AddConnection_def shard_at_def set_shard_def
      Shard_AddClient_def NewShard_def NewClient_def Let_def)

lemma reachable_example_manager: "reachable example_config example_manager"
  unfolding example_manager_def by (rule reach_handlers [OF reach_new])

lemma reachable_example_m1: "reachable example_config example_m1"
  unfolding example_m1_def
  by (rule reach_add [OF reachable_example_manager]) (simp add: id_in_use_def example_manager_eq NewShard_def)

lemma reachable_example_m2: "reachable example_config example_m2"
  unfolding example_m2_def
  by (rule reach_add [OF reachable_example_m1]) (simp add: id_in_use_def example_m1_eq NewShard_def)

theorem global_counter_matches_primary_maps_witness:
  "reachable example_config example_m2
   \<and> globalConns example_m2 = 2 \<and> primary_total example_m2 = 2
   \<and> globalConns (snd (RemoveClient example_m2 ''c1'' ''bye'')) = 1
   \<and> primary_total (snd (RemoveClient example_m2 ''c1'' ''bye'')) = 1"
  using global_counter_matches_primary_maps [OF reachable_example_m2, of "''1.2.3.6''" 100 150 "''c3''" 0 True "''c1''" "''bye''" 0]
    reachable_example_m2
  by (simp add: example_m2_eq primary_total_def GetClient_def shard_at_def Shard_GetClient_def
      RemoveClient_def Shard_RemoveClient_def NewShard_def NewClient_def Let_def set_shard_def
      delete_user_mapping_def)

subsection \<open>Registration under a (user, device) pair\<close>

lemma user_index_register:
  "user_index (s\<lparr> userClients := AList.update u (AList.update d r
       (case map_of (userClients s) u of None \<Rightarrow> [] | Some ds \<Rightarrow> ds)) (userClients s) \<rparr>) u' d'
   = (if u' = u \<and> d' = d then Some r else user_index s u' d')"
  by (auto simp: user_index_def update_conv' split: option.splits)

text \<open>
  C1, amended. For every manager state and every client registered in its shard's
  primary map, \<^verbatim>\<open>AuthenticateClient\<close> under a pair (user, device), when the user
  limiter allows it, returns no error, marks the client authenticated under the pair,
  and stores it in its shard's user index under the pair, in place of whatever the index
  held there; every other entry of the user index, the primary map, the counter, the
  hook log and every other session are left as they were. So the session that held the
  pair before is not closed (the code has no \<open>superseded\<close> close): it stays open and
  registered in the primary map.
\<close>

theorem RegisterAuthenticated_replaces_index_entry:
  assumes "shard_at m (getShardID m clientID) = Some s"
    and "map_of (clients s) clientID = Some client"
    and "heap m client = Some c"
  shows "fst (AuthenticateClient m clientID userID deviceID True) = None
       \<and> heap (snd (AuthenticateClient m clientID userID deviceID True)) client
           = Some (SetAuthenticated c userID deviceID)
       \<and> (\<forall>other. other \<noteq> client \<longrightarrow>
             heap (snd (AuthenticateClient m clientID userID deviceID True)) other = heap m other)
       \<and> (\<exists>s'. shard_at (snd (AuthenticateClient m clientID userID deviceID True))
                   (getShardID m clientID) = Some s'
              \<and> clients s' = clients s
              \<and> (\<forall>u d. user_index s' u d
                    = (if u = userID \<and> d = deviceID then Some client else user_index s u d)))
       \<and> globalConns (snd (AuthenticateClient m clientID userID deviceID True)) = globalConns m
       \<and> hook_log (snd (AuthenticateClient m clientID userID deviceID True)) = hook_log m"
proof -
  let ?s' = "s\<lparr> userClients := AList.update userID (AList.update deviceID client
       (case map_of (userClients s) userID of None \<Rightarrow> [] | Some ds \<Rightarrow> ds)) (userClients s) \<rparr>"
  have run: "AuthenticateClient m clientID userID deviceID True =
      (None, (set_shard m (getShardID m clientID) ?s')\<lparr>
                heap := (heap m)(client \<mapsto> SetAuthenticated c userID deviceID) \<rparr>)"
    using assms
    by (simp add: AuthenticateClient_def Shard_GetClient_def RegisterAuthenticatedClient_def Let_def)
  have at: "shard_at ((set_shard m (getShardID m clientID) ?s')\<lparr>
                heap := (heap m)(client \<mapsto> SetAuthenticated c userID deviceID) \<rparr>)
              (getShardID m clientID) = Some ?s'"
    using assms(1) by (auto simp: shard_at_def set_shard_def split: if_splits)
  have ex: "\<exists>s'. shard_at (snd (AuthenticateClient m clientID userID deviceID True))
                   (getShardID m clientID) = Some s'
              \<and> clients s' = clients s
              \<and> (\<forall>u d. user_index s' u d
                    = (if u = userID \<and> d = deviceID then Some client else user_index s u d))"
    unfolding run snd_conv
    by (rule exI [of _ ?s']) (simp add: at user_index_register)
  show ?thesis
    using ex by (simp add: run set_shard_def)
qed


lemma example_m3_eq:
  "example_m3 =
     \<lparr> shards = [(NewShard 0)\<lparr> clients := [(''c1'', 0), (''c2'', 1)],
                    userClients := [(''u1'', [(''d1'', 0)])],
                    stats := (stats (NewShard 0))\<lparr> TotalConnections := 2, ActiveConnections := 2 \<rparr> \<rparr>],
       shardCount = 1, shardMask = 0, config = example_config,
       globalConns = 2, maxConns = 2,
       heap = [0 \<mapsto> SetAuthenticated (NewClient ''c1'' ''1.2.3.4'' 0 100 150 0) ''u1'' ''d1'',
               1 \<mapsto> NewClient ''c2'' ''1.2.3.5'' 0 100 150 (5 * second)], next_ref = 2,
       onConnect = True, onDisconnect = True, hook_log = [ConnectCall 0, ConnectCall 1] \<rparr>"
  by (simp add: example_m3_def example_m2_eq AuthenticateClient_def shard_at_def set_shard_def
      Shard_GetClient_def RegisterAuthenticatedClient_def NewShard_def Let_def fun_upd_twist)

lemma example_m4_eq:
  "example_m4 =
     \<lparr> shards = [(NewShard 0)\<lparr> clients := [(''c1'', 0), (''c2'', 1)],
                    userClients := [(''u1'', [(''d1'', 1)])],
                    stats := (stats (NewShard 0))\<lparr> TotalConnections := 2, ActiveConnections := 2 \<rparr> \<rparr>],
       shardCount = 1, shardMask = 0, config = example_config,
       globalConns = 2, maxConns = 2,
       heap = [0 \<mapsto> SetAuthenticated (NewClient ''c1'' ''1.2.3.4'' 0 100 150 0) ''u1'' ''d1'',
               1 \<mapsto> SetAuthenticated (NewClient ''c2'' ''1.2.3.5'' 0 100 150 (5 * second)) ''u1'' ''d1''],
       next_ref = 2,
       onConnect = True, onDisconnect = True, hook_log = [ConnectCall 0, ConnectCall 1] \<rparr>"
  by (simp add: example_m4_def example_m3_eq AuthenticateClient_def shard_at_def set_shard_def
      Shard_GetClient_def RegisterAuthenticatedClient_def NewShard_def Let_def)

text \<open>
  C1, as the claim states it, fails. In \<open>example_m3\<close> the session \<open>c1\<close> (address 0) is
  registered under (u1, d1). Registering \<open>c2\<close> (address 1) under the same pair succeeds
  and replaces the entry of the user index, but \<open>c1\<close> is not closed, its socket is open,
  it is still in the primary map, no hook is called, and two live sessions carry the
  pair.
\<close>

theorem supersede_counterexample:
  "user_index (shards example_m3 ! 0) ''u1'' ''d1'' = Some 0
   \<and> fst (AuthenticateClient example_m3 ''c2'' ''u1'' ''d1'' True) = None
   \<and> snd (AuthenticateClient example_m3 ''c2'' ''u1'' ''d1'' True) = example_m4
   \<and> user_index (shards example_m4 ! 0) ''u1'' ''d1'' = Some 1
   \<and> map_option closing (heap example_m4 0) = Some False
   \<and> map_option Conn_closed (heap example_m4 0) = Some False
   \<and> map_of (clients (shards example_m4 ! 0)) ''c1'' = Some 0
   \<and> hook_log example_m4 = hook_log example_m3
   \<and> live_sessions example_m4 ''u1'' ''d1'' = [0, 1]"
proof -
  have "fst (AuthenticateClient example_m3 ''c2'' ''u1'' ''d1'' True) = None"
    by (simp add: example_m3_eq AuthenticateClient_def shard_at_def set_shard_def
      Shard_GetClient_def RegisterAuthenticatedClient_def NewShard_def Let_def)
  moreover have "snd (AuthenticateClient example_m3 ''c2'' ''u1'' ''d1'' True) = example_m4"
    by (simp add: example_m4_def)
  moreover have "live_sessions example_m4 ''u1'' ''d1'' = [0, 1]"
    by (simp add: example_m4_eq live_sessions_def registered_def is_live_as_def
        SetAuthenticated_def NewClient_def)
  ultimately show ?thesis
    by (simp add: example_m3_eq example_m4_eq user_index_def SetAuthenticated_def NewClient_def)
qed

theorem RegisterAuthenticated_replaces_index_entry_witness:
  "shard_at example_m3 (getShardID example_m3 ''c2'') = Some (shards example_m3 ! 0)
   \<and> map_of (clients (shards example_m3 ! 0)) ''c2'' = Some 1
   \<and> heap example_m3 1 = Some (NewClient ''c2'' ''1.2.3.5'' 0 100 150 (5 * second))
   \<and> fst (AuthenticateClient example_m3 ''c2'' ''u1'' ''d1'' True) = None
   \<and> heap (snd (AuthenticateClient example_m3 ''c2'' ''u1'' ''d1'' True)) 1
       = Some (SetAuthenticated (NewClient ''c2'' ''1.2.3.5'' 0 100 150 (5 * second)) ''u1'' ''d1'')
   \<and> heap (snd (AuthenticateClient example_m3 ''c2'' ''u1'' ''d1'' True)) 0 = heap example_m3 0"
proof -
  have a: "shard_at example_m3 (getShardID example_m3 ''c2'') = Some (shards example_m3 ! 0)"
    by (simp add: example_m3_eq shard_at_def)
  have b: "map_of (clients (shards example_m3 ! 0)) ''c2'' = Some 1"
    by (simp add: example_m3_eq)
  have c: "heap example_m3 1 = Some (NewClient ''c2'' ''1.2.3.5'' 0 100 150 (5 * second))"
    by (simp add: example_m3_eq)
  show ?thesis
    using RegisterAuthenticated_replaces_index_entry [OF a b c, of "''u1''" "''d1''"] a b c
    by simp
qed

subsection \<open>Closing a session\<close>

lemma Close_idempotent: "Close (Close c reason) reason' = Close c reason"
  by (simp add: Close_def)

lemma Close_flags:
  "closing (Close c reason)"
  "\<not> closing c \<Longrightarrow> ctx_done (Close c reason) \<and> Send_closed (Close c reason) \<and> Conn_closed (Close c reason)"
  by (simp_all add: Close_def)

lemma user_index_delete_user_mapping:
  "UserID c \<noteq> [] \<Longrightarrow> user_index (delete_user_mapping s c) (UserID c) (DeviceID c) = None"
  by (auto simp: user_index_def delete_user_mapping_def delete_conv' update_conv'
      split: option.splits)

lemma user_index_stats_update [simp]: "user_index (s\<lparr> stats := st \<rparr>) u d = user_index s u d"
  by (simp add: user_index_def)

lemma map_of_delete_same [simp]: "map_of (AList.delete k al) k = None"
  by (simp add: delete_conv')

text \<open>
  What the close protocol does on a registered session. \<^verbatim>\<open>Client.Close(reason)\<close> is
  idempotent: it leaves the session closing, the first call on an open session cancels
  the context and closes the outbound queue and the socket, and a second call changes
  nothing. \<^verbatim>\<open>Manager.RemoveClient(id, reason)\<close>, on a session registered in its shard,
  returns without error, calls \<^verbatim>\<open>Close\<close> on the session, lowers the global counter by
  one, deletes the session from the primary map and deletes the entry the user index
  holds under the session's current (user, device) pair when the user id is not empty,
  and calls the on-disconnect hook, when one is registered, exactly once; a second
  \<^verbatim>\<open>RemoveClient\<close> for the same id changes no state and calls no hook.
\<close>

lemma RemoveClient_close_protocol:
  assumes "shard_at m (getShardID m clientID) = Some s"
    and "map_of (clients s) clientID = Some client"
    and "heap m client = Some c"
  shows "Close (Close c reason) reason' = Close c reason
       \<and> closing (Close c reason)
       \<and> (\<not> closing c \<longrightarrow>
            ctx_done (Close c reason) \<and> Send_closed (Close c reason) \<and> Conn_closed (Close c reason))
       \<and> fst (RemoveClient m clientID reason) = None
       \<and> heap (snd (RemoveClient m clientID reason)) client = Some (Close c reason)
       \<and> globalConns (snd (RemoveClient m clientID reason)) = globalConns m - 1
       \<and> (\<exists>s'. shard_at (snd (RemoveClient m clientID reason)) (getShardID m clientID) = Some s'
              \<and> map_of (clients s') clientID = None
              \<and> (UserID c \<noteq> [] \<longrightarrow> user_index s' (UserID c) (DeviceID c) = None))
       \<and> hook_log (snd (RemoveClient m clientID reason))
           = (if onDisconnect m then hook_log m @ [DisconnectCall client reason] else hook_log m)
       \<and> RemoveClient (snd (RemoveClient m clientID reason)) clientID reason'
           = (None, snd (RemoveClient m clientID reason))"
proof -
  let ?s1 = "delete_user_mapping (s\<lparr> clients := AList.delete clientID (clients s) \<rparr>) c"
  let ?s' = "?s1\<lparr> stats := (stats ?s1)\<lparr> ActiveConnections := ActiveConnections (stats ?s1) - 1,
                         Disconnections := Disconnections (stats ?s1) + 1 \<rparr> \<rparr>"
  let ?m' = "(set_shard m (getShardID m clientID) ?s')\<lparr>
               globalConns := globalConns m - 1,
               heap := (heap m)(client \<mapsto> Close c reason),
               hook_log := (if onDisconnect m then hook_log m @ [DisconnectCall client reason]
                            else hook_log m) \<rparr>"
  have run: "RemoveClient m clientID reason = (None, ?m')"
    using assms by (simp add: RemoveClient_def Shard_RemoveClient_def Let_def)
  have sid: "getShardID ?m' clientID = getShardID m clientID"
    by (simp add: getShardID_def set_shard_def)
  have at: "shard_at ?m' (getShardID m clientID) = Some ?s'"
    using assms(1) by (auto simp: shard_at_def set_shard_def split: if_splits)
  have gone: "map_of (clients ?s') clientID = None" by simp
  have idx: "UserID c \<noteq> [] \<longrightarrow> user_index ?s' (UserID c) (DeviceID c) = None"
    by (simp add: user_index_delete_user_mapping)
  have ex: "\<exists>s'. shard_at ?m' (getShardID m clientID) = Some s'
              \<and> map_of (clients s') clientID = None
              \<and> (UserID c \<noteq> [] \<longrightarrow> user_index s' (UserID c) (DeviceID c) = None)"
    using at gone idx by blast
  have same: "set_shard ?m' (getShardID m clientID) ?s' = ?m'"
    using at by (auto simp: set_shard_def shard_at_def split: if_splits)
  have again: "RemoveClient ?m' clientID reason' = (None, ?m')"
    unfolding RemoveClient_def Let_def sid at
    using same by (simp add: Shard_RemoveClient_def)
  show ?thesis
    unfolding run fst_conv snd_conv
    using ex again Close_flags [of c reason]
    by (simp add: Close_idempotent set_shard_def)
qed


lemma example_m3b_eq:
  "example_m3b =
     \<lparr> shards = [(NewShard 0)\<lparr> clients := [(''c1'', 0), (''c2'', 1)],
                    userClients := [(''u1'', [(''d1'', 0), (''d2'', 0)])],
                    stats := (stats (NewShard 0))\<lparr> TotalConnections := 2, ActiveConnections := 2 \<rparr> \<rparr>],
       shardCount = 1, shardMask = 0, config = example_config,
       globalConns = 2, maxConns = 2,
       heap = [0 \<mapsto> SetAuthenticated (NewClient ''c1'' ''1.2.3.4'' 0 100 150 0) ''u1'' ''d2'',
               1 \<mapsto> NewClient ''c2'' ''1.2.3.5'' 0 100 150 (5 * second)], next_ref = 2,
       onConnect = True, onDisconnect = True, hook_log = [ConnectCall 0, ConnectCall 1] \<rparr>"
  by (simp add: example_m3b_def example_m3_eq AuthenticateClient_def shard_at_def set_shard_def
      Shard_GetClient_def RegisterAuthenticatedClient_def NewShard_def Let_def fun_upd_twist
      SetAuthenticated_def)

text \<open>
  C6 at a concrete input. The session \<open>c1\<close> of \<open>example_m3b\<close> was authenticated under
  (u1, d1) and then under (u1, d2), so the user index holds it under both pairs.
  \<^verbatim>\<open>RemoveClient\<close> closes it, lowers the counter, calls the hook once, takes it out of
  the primary map and deletes the index entry of its current pair (u1, d2); the entry
  under (u1, d1) stays, and still leads to the closed session: the session is not
  removed from both indexes, and a second \<^verbatim>\<open>RemoveClient\<close> does not remove the entry
  either.
\<close>

theorem RemoveClient_stale_index_example:
  "fst (RemoveClient example_m3b ''c1'' ''bye'') = None
   \<and> map_option closing (heap (snd (RemoveClient example_m3b ''c1'' ''bye'')) 0) = Some True
   \<and> globalConns (snd (RemoveClient example_m3b ''c1'' ''bye'')) = globalConns example_m3b - 1
   \<and> hook_log (snd (RemoveClient example_m3b ''c1'' ''bye''))
       = hook_log example_m3b @ [DisconnectCall 0 ''bye'']
   \<and> map_of (clients (shards (snd (RemoveClient example_m3b ''c1'' ''bye'')) ! 0)) ''c1'' = None
   \<and> user_index (shards (snd (RemoveClient example_m3b ''c1'' ''bye'')) ! 0) ''u1'' ''d2'' = None
   \<and> user_index (shards (snd (RemoveClient example_m3b ''c1'' ''bye'')) ! 0) ''u1'' ''d1'' = Some 0
   \<and> user_index (shards (snd (RemoveClient (snd (RemoveClient example_m3b ''c1'' ''bye''))
                                   ''c1'' ''again'')) ! 0) ''u1'' ''d1'' = Some 0"
proof -
  have b: "RemoveClient example_m3b ''c1'' ''bye'' =
     (None, example_m3b\<lparr>
        shards := [(NewShard 0)\<lparr> clients := [(''c2'', 1)],
                    userClients := [(''u1'', [(''d1'', 0)])],
                    stats := (stats (NewShard 0))\<lparr> TotalConnections := 2, ActiveConnections := 1,
                       Disconnections := 1 \<rparr> \<rparr>],
        globalConns := 1,
        heap := (heap example_m3b)(0 \<mapsto>
           Close (SetAuthenticated (NewClient ''c1'' ''1.2.3.4'' 0 100 150 0) ''u1'' ''d2'') ''bye''),
        hook_log := [ConnectCall 0, ConnectCall 1, DisconnectCall 0 ''bye''] \<rparr>)"
    by (simp add: example_m3b_eq RemoveClient_def Shard_RemoveClient_def shard_at_def set_shard_def
        delete_user_mapping_def SetAuthenticated_def NewClient_def NewShard_def Let_def)
  have c: "RemoveClient (snd (RemoveClient example_m3b ''c1'' ''bye'')) ''c1'' ''again''
      = (None, snd (RemoveClient example_m3b ''c1'' ''bye''))"
    unfolding b snd_conv
    by (simp add: example_m3b_eq RemoveClient_def Shard_RemoveClient_def shard_at_def Let_def)
  have d: "globalConns example_m3b = 2" "hook_log example_m3b = [ConnectCall 0, ConnectCall 1]"
    by (simp_all add: example_m3b_eq)
  show ?thesis
    unfolding c snd_conv
    by (simp add: b d user_index_def Close_def)
qed

subsection \<open>Admission at the upgrade endpoint\<close>

text \<open>
  C7, amended. \<^verbatim>\<open>ServeHTTP\<close> never writes an HTTP error status of its own: its IP check
  before the upgrade always passes. When the upgrade fails, nothing else happens. The
  global ceiling and the IP limiter are consulted by \<^verbatim>\<open>AddConnection\<close>, after the
  upgrade has completed: when either rejects, the upgraded connection is closed, the
  manager is left as it was, and no status is written. When both accept (and the shard
  exists), the connection is registered and the counter goes up by one.
\<close>

theorem ServeHTTP_limits_after_upgrade:
  "(\<forall>n. HttpError n \<notin> set (fst (ServeHTTP m r upgradeOK clientID now ipAllow)))
   \<and> (\<not> upgradeOK \<longrightarrow> ServeHTTP m r upgradeOK clientID now ipAllow = ([UpgradeFailed], m))
   \<and> (upgradeOK \<and> (globalConns m \<ge> maxConns m \<or> \<not> ipAllow) \<longrightarrow>
        ServeHTTP m r upgradeOK clientID now ipAllow = ([Upgraded, ConnClosed], m))
   \<and> (upgradeOK \<and> globalConns m < maxConns m \<and> ipAllow
        \<and> shard_at m (getShardID m clientID) \<noteq> None \<longrightarrow>
        fst (ServeHTTP m r upgradeOK clientID now ipAllow) = [Upgraded]
        \<and> globalConns (snd (ServeHTTP m r upgradeOK clientID now ipAllow)) = globalConns m + 1)"
proof -
  have none: "\<forall>n. HttpError n \<notin> set (fst (ServeHTTP m r upgradeOK clientID now ipAllow))"
    by (auto simp: ServeHTTP_def checkIPLimit_def Let_def split: prod.splits sum.splits)
  have fail: "\<not> upgradeOK \<longrightarrow> ServeHTTP m r upgradeOK clientID now ipAllow = ([UpgradeFailed], m)"
    by (simp add: ServeHTTP_def checkIPLimit_def)
  have rej: "upgradeOK \<and> (globalConns m \<ge> maxConns m \<or> \<not> ipAllow) \<longrightarrow>
        ServeHTTP m r upgradeOK clientID now ipAllow = ([Upgraded, ConnClosed], m)"
    by (auto simp: ServeHTTP_def checkIPLimit_def AddConnection_def)
  have ok: "upgradeOK \<and> globalConns m < maxConns m \<and> ipAllow
        \<and> shard_at m (getShardID m clientID) \<noteq> None \<longrightarrow>
        fst (ServeHTTP m r upgradeOK clientID now ipAllow) = [Upgraded]
        \<and> globalConns (snd (ServeHTTP m r upgradeOK clientID now ipAllow)) = globalConns m + 1"
    by (auto simp: ServeHTTP_def checkIPLimit_def AddConnection_def Shard_AddClient_def Let_def
        set_shard_def)
  show ?thesis using none fail rej ok by blast
qed

theorem ServeHTTP_limits_after_upgrade_witness:
  "ServeHTTP example_m2 example_request True ''c3'' 0 True = ([Upgraded, ConnClosed], example_m2)
   \<and> fst (ServeHTTP example_m1 example_request True ''c2'' 0 True) = [Upgraded]
   \<and> globalConns (snd (ServeHTTP example_m1 example_request True ''c2'' 0 True)) = 2"
  using ServeHTTP_limits_after_upgrade [of example_m2 example_request True "''c3''" 0 True]
    ServeHTTP_limits_after_upgrade [of example_m1 example_request True "''c2''" 0 True]
  by (simp add: example_m2_eq example_m1_eq shard_at_def)

text \<open>
  C7, as the claim states it, fails. \<open>example_m2\<close> is at its global ceiling: a further
  request is upgraded and then closed, and no 503 is written. In \<open>example_m1\<close> a request
  the IP limiter refuses is upgraded and then closed, and no 429 is written.
\<close>

theorem ServeHTTP_status_counterexample:
  "maxConns example_m2 \<le> globalConns example_m2
   \<and> fst (ServeHTTP example_m2 example_request True ''c3'' 0 True) = [Upgraded, ConnClosed]
   \<and> HttpError 503 \<notin> set (fst (ServeHTTP example_m2 example_request True ''c3'' 0 True))
   \<and> fst (ServeHTTP example_m1 example_request True ''c3'' 0 False) = [Upgraded, ConnClosed]
   \<and> HttpError 429 \<notin> set (fst (ServeHTTP example_m1 example_request True ''c3'' 0 False))"
  by (simp add: ServeHTTP_def checkIPLimit_def AddConnection_def example_m2_eq example_m1_eq)

subsection \<open>The size of an inbound frame\<close>

text \<open>
  C9, amended. The bound on an inbound frame is the read limit that \<^verbatim>\<open>ReadPump\<close> sets,
  1048576 bytes, whatever \<^verbatim>\<open>server.max_message_size\<close> is. For a registered session whose
  context is not cancelled: a frame of at most 1048576 bytes is accepted (the loop goes
  on, the registry is as it was, the activity time is updated, and when the rate limiter
  allows it the frame is handed to the message handler and nothing is queued); the read
  of a longer frame fails, the loop stops and the session is torn down by the deferred
  calls: it is closed, with nothing added to its outbound queue (no error frame), it
  leaves the primary map, the global counter goes down by one and the on-disconnect
  hook, when registered, is called with reason \<open>client_disconnected\<close>.
\<close>

theorem ReadPump_read_limit:
  assumes "shard_at m (getShardID m (ID c)) = Some s"
    and "map_of (clients s) (ID c) = Some client"
    and "heap m client = Some c"
    and "\<not> ctx_done c"
  shows "(int (length message) \<le> 1048576 \<longrightarrow>
            (\<exists>c'. ReadPump_turn marshal m client (Frame message) now allow messageID
                     = (Running, None, m\<lparr> heap := (heap m)(client \<mapsto> c') \<rparr>,
                        if allow then Some message else None)
                 \<and> LastActivity c' = now
                 \<and> closing c' = closing c
                 \<and> (allow \<longrightarrow> Send c' = Send c)))
       \<and> (int (length message) > 1048576 \<longrightarrow>
            (\<exists>m'. ReadPump_turn marshal m client (Frame message) now allow messageID
                     = (Stopped, None, m', None)
                 \<and> heap m' client = Some (Close c ''client_disconnected'')
                 \<and> closing (Close c ''client_disconnected'')
                 \<and> Send (Close c ''client_disconnected'') = Send c
                 \<and> globalConns m' = globalConns m - 1
                 \<and> (\<exists>s'. shard_at m' (getShardID m (ID c)) = Some s'
                        \<and> map_of (clients s') (ID c) = None)
                 \<and> hook_log m'
                     = (if onDisconnect m
                        then hook_log m @ [DisconnectCall client ''client_disconnected'']
                        else hook_log m)))"
proof (intro conjI impI)
  assume small: "int (length message) \<le> 1048576"
  let ?c1 = "c\<lparr> LastActivity := now,
                metrics := (metrics c)\<lparr>
                  MessagesReceived := MessagesReceived (metrics c) + 1,
                  BytesReceived := BytesReceived (metrics c) + int (length message) \<rparr> \<rparr>"
  let ?c' = "if allow then ?c1
             else snd (WriteMessage ?c1
                    (marshal (NewErrorMessage ''RATE_LIMIT_EXCEEDED'' ''Too many messages''
                                ''Please slow down'' messageID (now div 1000000))))"
  have step: "ReadPump_step marshal c (Frame message) now allow messageID
      = (Running, ?c', if allow then Some message else None)"
    using assms(4) small
    by (simp add: ReadPump_step_def Conn_ReadMessage_def readLimit_def Let_def)
  have turn: "ReadPump_turn marshal m client (Frame message) now allow messageID
      = (Running, None, m\<lparr> heap := (heap m)(client \<mapsto> ?c') \<rparr>,
         if allow then Some message else None)"
    by (simp only: ReadPump_turn_def step assms(3) option.case prod.case pump.case)
  have props: "LastActivity ?c' = now \<and> closing ?c' = closing c \<and> (allow \<longrightarrow> Send ?c' = Send c)"
    by (simp add: WriteMessage_def)
  show "\<exists>c'. ReadPump_turn marshal m client (Frame message) now allow messageID
                 = (Running, None, m\<lparr> heap := (heap m)(client \<mapsto> c') \<rparr>,
                    if allow then Some message else None)
             \<and> LastActivity c' = now
             \<and> closing c' = closing c
             \<and> (allow \<longrightarrow> Send c' = Send c)"
    using turn props by blast
next
  assume big: "int (length message) > 1048576"
  let ?R = "RemoveClient m (ID c) ''client_disconnected''"
  have step: "ReadPump_step marshal c (Frame message) now allow messageID = (Stopped, c, None)"
    using assms(4) big
    by (simp add: ReadPump_step_def Conn_ReadMessage_def readLimit_def)
  have same: "m\<lparr> heap := (heap m)(client \<mapsto> c) \<rparr> = m"
    using assms(3) by (simp add: fun_upd_idem)
  note rc = RemoveClient_close_protocol [OF assms(1) assms(2) assms(3),
      of "''client_disconnected''" "''client_disconnected''"]
  have r1: "fst ?R = None" using rc by blast
  have r2: "heap (snd ?R) client = Some (Close c ''client_disconnected'')" using rc by blast
  have hd: "handleDisconnect m client = (None, snd ?R)"
    using assms(3) r1 by (simp add: handleDisconnect_def prod_eq_iff)
  have cl: "cleanup (Close c ''client_disconnected'') = Close c ''client_disconnected''"
    by (simp add: cleanup_def Close_def)
  have ex: "ReadPump_exit m client = (None, snd ?R)"
    unfolding ReadPump_exit_def hd using r2 by (simp add: cl fun_upd_idem)
  have turn: "ReadPump_turn marshal m client (Frame message) now allow messageID
      = (Stopped, None, snd ?R, None)"
    by (simp only: ReadPump_turn_def step assms(3) same ex option.case prod.case pump.case)
  have rest: "heap (snd ?R) client = Some (Close c ''client_disconnected'')
      \<and> closing (Close c ''client_disconnected'')
      \<and> Send (Close c ''client_disconnected'') = Send c
      \<and> globalConns (snd ?R) = globalConns m - 1
      \<and> (\<exists>s'. shard_at (snd ?R) (getShardID m (ID c)) = Some s'
             \<and> map_of (clients s') (ID c) = None)
      \<and> hook_log (snd ?R)
          = (if onDisconnect m
             then hook_log m @ [DisconnectCall client ''client_disconnected'']
             else hook_log m)"
    using rc by (simp add: Close_def) blast
  show "\<exists>m'. ReadPump_turn marshal m client (Frame message) now allow messageID
                 = (Stopped, None, m', None)
             \<and> heap m' client = Some (Close c ''client_disconnected'')
             \<and> closing (Close c ''client_disconnected'')
             \<and> Send (Close c ''client_disconnected'') = Send c
             \<and> globalConns m' = globalConns m - 1
             \<and> (\<exists>s'. shard_at m' (getShardID m (ID c)) = Some s'
                    \<and> map_of (clients s') (ID c) = None)
             \<and> hook_log m'
                 = (if onDisconnect m
                    then hook_log m @ [DisconnectCall client ''client_disconnected'']
                    else hook_log m)"
    using turn rest by blast
qed

theorem ReadPump_read_limit_witness:
  "shard_at example_m2 (getShardID example_m2 (ID (NewClient ''c1'' ''1.2.3.4'' 0 100 150 0)))
     = Some (shards example_m2 ! 0)
   \<and> map_of (clients (shards example_m2 ! 0)) (ID (NewClient ''c1'' ''1.2.3.4'' 0 100 150 0)) = Some 0
   \<and> heap example_m2 0 = Some (NewClient ''c1'' ''1.2.3.4'' 0 100 150 0)
   \<and> \<not> ctx_done (NewClient ''c1'' ''1.2.3.4'' 0 100 150 0)
   \<and> fst (ReadPump_turn example_marshal example_m2 0 (Frame (replicate 1048576 CHR ''a'')) 7 True ''e1'')
       = Running
   \<and> snd (snd (snd (ReadPump_turn example_marshal example_m2 0
                       (Frame (replicate 1048576 CHR ''a'')) 7 True ''e1'')))
       = Some (replicate 1048576 CHR ''a'')
   \<and> fst (ReadPump_turn example_marshal example_m2 0 (Frame (replicate 1048577 CHR ''a'')) 7 True ''e1'')
       = Stopped
   \<and> globalConns (fst (snd (snd (ReadPump_turn example_marshal example_m2 0
                       (Frame (replicate 1048577 CHR ''a'')) 7 True ''e1'')))) = 1
   \<and> hook_log (fst (snd (snd (ReadPump_turn example_marshal example_m2 0
                       (Frame (replicate 1048577 CHR ''a'')) 7 True ''e1''))))
       = [ConnectCall 0, ConnectCall 1, DisconnectCall 0 ''client_disconnected'']"
proof -
  let ?c = "NewClient ''c1'' ''1.2.3.4'' 0 100 150 0"
  have a: "shard_at example_m2 (getShardID example_m2 (ID ?c)) = Some (shards example_m2 ! 0)"
    by (simp add: example_m2_eq shard_at_def)
  have b: "map_of (clients (shards example_m2 ! 0)) (ID ?c) = Some 0"
    by (simp add: example_m2_eq NewClient_def)
  have c: "heap example_m2 0 = Some ?c"
    by (simp add: example_m2_eq)
  have d: "\<not> ctx_done ?c" by (simp add: NewClient_def)
  have e: "globalConns example_m2 = 2" "onDisconnect example_m2"
    "hook_log example_m2 = [ConnectCall 0, ConnectCall 1]"
    by (simp_all add: example_m2_eq)
  have l: "int (length (replicate 1048576 CHR ''a'')) \<le> 1048576"
    "int (length (replicate 1048577 CHR ''a'')) > 1048576"
    by simp_all
  show ?thesis
    using ReadPump_read_limit [OF a b c d, of "replicate 1048576 CHR ''a''" example_marshal 7 True "''e1''"]
      ReadPump_read_limit [OF a b c d, of "replicate 1048577 CHR ''a''" example_marshal 7 True "''e1''"]
      a b c d e l
    by auto
qed

text \<open>
  C9, as the claim states it, fails. With the default configuration
  (\<^verbatim>\<open>max_message_size\<close> = 524288) a frame of 524289 bytes is accepted and handed to the
  handler, and no error frame is queued. With the valid configuration
  \<open>example_config_big\<close> (\<^verbatim>\<open>max_message_size\<close> = 2097152) a frame of exactly that size
  stops the read loop.
\<close>

theorem max_message_size_counterexample:
  "Server_MaxMessageSize (setDefaults ''n1'') = 524288
   \<and> validateConfig example_config_big = None
   \<and> Server_MaxMessageSize example_config_big = 2097152
   \<and> fst (ReadPump_step example_marshal example_client (Frame (replicate 524289 CHR ''a'')) 7 True ''e1'')
       = Running
   \<and> snd (snd (ReadPump_step example_marshal example_client (Frame (replicate 524289 CHR ''a'')) 7 True ''e1''))
       = Some (replicate 524289 CHR ''a'')
   \<and> Send (fst (snd (ReadPump_step example_marshal example_client
               (Frame (replicate 524289 CHR ''a'')) 7 True ''e1''))) = []
   \<and> ReadPump_step example_marshal example_client (Frame (replicate 2097152 CHR ''a'')) 7 True ''e1''
       = (Stopped, example_client, None)"
  by (simp add: setDefaults_def validateConfig_def example_config_big_def example_config_def
      ReadPump_step_def Conn_ReadMessage_def readLimit_def example_client_def NewClient_def Let_def)

subsection \<open>The cleanup sweep\<close>

lemma CleanupInactive_loop_removed_absent:
  assumes "CleanupInactive_loop h timeout now es s removed = Inr (s', removed')"
    and "\<forall>k \<in> set removed. map_of (clients s) k = None"
  shows "\<forall>k \<in> set removed'. map_of (clients s') k = None"
  using assms
proof (induction es arbitrary: s removed)
  case Nil
  then show ?case by simp
next
  case (Cons e es)
  obtain cid r where e: "e = (cid, r)" by (cases e)
  from Cons.prems(1) e obtain c where c: "h r = Some c"
    by (auto split: option.splits)
  show ?case
  proof (cases "now - LastActivity c > timeout")
    case False
    with Cons.prems e c have "CleanupInactive_loop h timeout now es s removed = Inr (s', removed')"
      by simp
    from Cons.IH [OF this Cons.prems(2)] show ?thesis .
  next
    case True
    let ?s1 = "delete_user_mapping (s\<lparr> clients := AList.delete cid (clients s) \<rparr>) c"
    from True Cons.prems(1) e c
    have run: "CleanupInactive_loop h timeout now es ?s1 (removed @ [cid]) = Inr (s', removed')"
      by simp
    have "\<forall>k \<in> set (removed @ [cid]). map_of (clients ?s1) k = None"
      using Cons.prems(2) by (auto simp: delete_conv')
    from Cons.IH [OF run this] show ?thesis .
  qed
qed

lemma CleanupInactive_removed_absent:
  assumes "CleanupInactive h s timeout now = Inr (s', removed)"
  shows "\<forall>k \<in> set removed. Shard_GetClient s' k = None"
proof -
  from assms obtain s1 where run: "CleanupInactive_loop h timeout now (clients s) s [] = Inr (s1, removed)"
    and s': "clients s' = clients s1"
    by (auto simp: CleanupInactive_def split: sum.splits)
  from CleanupInactive_loop_removed_absent [OF run] s' show ?thesis
    by (simp add: Shard_GetClient_def)
qed

lemma report_removed_no_hook:
  "\<forall>k \<in> set ids. Shard_GetClient shard k = None \<Longrightarrow>
   hook_log (report_removed m shard ids) = hook_log m"
  by (induction ids arbitrary: m) (auto simp: Let_def)

lemma cleanup_shards_no_hook:
  "hook_log (snd (cleanup_shards timeout clock i ss m)) = hook_log m
   \<and> heap (snd (cleanup_shards timeout clock i ss m)) = heap m"
proof (induction ss arbitrary: i m)
  case Nil
  then show ?case by simp
next
  case (Cons shard rest)
  show ?case
  proof (cases "CleanupInactive (heap m) shard timeout (clock i)")
    case (Inl e)
    then show ?thesis by simp
  next
    case (Inr res)
    obtain shard' removed where res: "res = (shard', removed)" by (cases res)
    note absent = CleanupInactive_removed_absent [OF Inr [unfolded res]]
    show ?thesis
      using Inr res Cons.IH report_removed_no_hook [OF absent] report_removed_effect
      by simp
  qed
qed

text \<open>
  Whatever the state and the clock, a sweep calls no hook and changes no session: the
  ids it reports were deleted from the shard before \<^verbatim>\<open>shard.GetClient\<close> looks them up,
  and \<^verbatim>\<open>CleanupInactive\<close> calls neither \<^verbatim>\<open>Close\<close> nor \<^verbatim>\<open>cleanup\<close>.
\<close>

lemma cleanup_sweep_never_closes_or_reports:
  "hook_log (snd (cleanupInactiveConnections m clock)) = hook_log m
   \<and> heap (snd (cleanupInactiveConnections m clock)) = heap m"
  by (simp add: cleanupInactiveConnections_def cleanup_shards_no_hook)

text \<open>
  C8 at a concrete state. In \<open>example_m4\<close> the on-disconnect hook is registered, the
  pong wait is 60 s, and the two sessions were last active at 0 s and 5 s. A sweep at
  200 s removes both from the primary map and from the user index and brings the counter
  to 0, but the sessions are not closed (their sockets stay open) and the hook is not
  called: the hook log still holds the two connect calls only.
\<close>

theorem cleanup_sweep_example:
  "onDisconnect example_m4
   \<and> fst (cleanupInactiveConnections example_m4 example_clock) = None
   \<and> map clients (shards (snd (cleanupInactiveConnections example_m4 example_clock))) = [[]]
   \<and> map userClients (shards (snd (cleanupInactiveConnections example_m4 example_clock))) = [[]]
   \<and> globalConns (snd (cleanupInactiveConnections example_m4 example_clock)) = 0
   \<and> map_option closing (heap (snd (cleanupInactiveConnections example_m4 example_clock)) 0)
       = Some False
   \<and> map_option Conn_closed (heap (snd (cleanupInactiveConnections example_m4 example_clock)) 0)
       = Some False
   \<and> hook_log (snd (cleanupInactiveConnections example_m4 example_clock))
       = [ConnectCall 0, ConnectCall 1]"
proof -
  have "cleanupInactiveConnections example_m4 example_clock =
     (None, example_m4\<lparr>
        shards := [(NewShard 0)\<lparr> clients := [], userClients := [],
                    stats := (stats (NewShard 0))\<lparr> TotalConnections := 2, ActiveConnections := 0,
                       LastCleanup := 200 * second \<rparr> \<rparr>],
        globalConns := 0 \<rparr>)"
    by (simp add: example_m4_eq cleanupInactiveConnections_def CleanupInactive_def
        delete_user_mapping_def SetAuthenticated_def NewClient_def NewShard_def Let_def
        Shard_GetClient_def example_clock_def example_config_def setDefaults_def second_def)
  then show ?thesis
    by (simp add: example_m4_eq SetAuthenticated_def NewClient_def)
qed

subsection \<open>The cap on the sessions of a user\<close>

lemma length_open_sessions: "length (open_sessions m u) = card (auth_set m u)"
proof -
  have "{i. i < length [0..<next_ref m] \<and> authenticated_as (heap m) u ([0..<next_ref m] ! i)}
      = auth_set m u"
    by (auto simp: auth_set_def)
  then show ?thesis
    by (simp add: open_sessions_def length_filter_conv_card)
qed

lemma finite_auth_set [simp]: "finite (auth_set m u)"
proof -
  have "auth_set m u \<subseteq> {..<next_ref m}" by (auto simp: auth_set_def)
  then show ?thesis by (rule finite_subset) simp
qed

lemma cap_inv_subset:
  assumes "cap_inv m" "config m' = config m" "\<And>u. auth_set m' u \<subseteq> auth_set m u"
  shows "cap_inv m'"
  unfolding cap_inv_def
proof
  fix u
  have "card (auth_set m' u) \<le> card (auth_set m u)"
    by (rule card_mono) (simp_all add: assms(3))
  then have "int (card (auth_set m' u)) \<le> int (card (auth_set m u))" by simp
  also have "\<dots> \<le> max 0 (RateLimit_ConnectionsPerUser (config m))"
    using assms(1) by (simp add: cap_inv_def)
  finally show "int (card (auth_set m' u)) \<le> max 0 (RateLimit_ConnectionsPerUser (config m'))"
    by (simp add: assms(2))
qed

lemma set_shard_fields [simp]:
  "heap (set_shard m i s) = heap m"
  "next_ref (set_shard m i s) = next_ref m"
  "config (set_shard m i s) = config m"
  by (simp_all add: set_shard_def)

lemma cap_inv_NewManager: "cap_inv (NewManager cfg) \<and> store_inv (NewManager cfg)"
  by (simp add: cap_inv_def store_inv_def auth_set_def authenticated_as_def NewManager_def Let_def)

lemma cap_inv_RegisterHandlers:
  "cap_inv m \<Longrightarrow> cap_inv (RegisterHandlers m a b)"
  "store_inv m \<Longrightarrow> store_inv (RegisterHandlers m a b)"
  by (simp_all add: cap_inv_def store_inv_def auth_set_def RegisterHandlers_def)

lemma cap_inv_AddConnection:
  shows "cap_inv m \<Longrightarrow> cap_inv (snd (AddConnection m ip rateLimit burst clientID now ipAllow))"
    and "store_inv m \<Longrightarrow> store_inv (snd (AddConnection m ip rateLimit burst clientID now ipAllow))"
proof -
  let ?R = "snd (AddConnection m ip rateLimit burst clientID now ipAllow)"
  have "?R = m \<or> (\<exists>s'. ?R = (set_shard m (getShardID m clientID) s')\<lparr>
        heap := (heap m)(next_ref m \<mapsto> NewClient clientID ip (getShardID m clientID) rateLimit burst now),
        next_ref := Suc (next_ref m), globalConns := globalConns m + 1,
        hook_log := (if onConnect m then hook_log m @ [ConnectCall (next_ref m)] else hook_log m) \<rparr>)"
    by (auto simp: AddConnection_def Let_def Shard_AddClient_def split: option.splits sum.splits)
  then consider (same) "?R = m"
    | (new) s' where "?R = (set_shard m (getShardID m clientID) s')\<lparr>
        heap := (heap m)(next_ref m \<mapsto> NewClient clientID ip (getShardID m clientID) rateLimit burst now),
        next_ref := Suc (next_ref m), globalConns := globalConns m + 1,
        hook_log := (if onConnect m then hook_log m @ [ConnectCall (next_ref m)] else hook_log m) \<rparr>"
    by blast
  note shape = this
  show "cap_inv ?R" if inv: "cap_inv m"
  proof (cases rule: shape)
    case same
    then show ?thesis using inv by simp
  next
    case new
    have sub: "auth_set ?R u \<subseteq> auth_set m u" for u
      unfolding new
      by (auto simp: auth_set_def authenticated_as_def NewClient_def less_Suc_eq split: if_splits)
    have cfg: "config ?R = config m" unfolding new by simp
    show ?thesis by (rule cap_inv_subset [OF inv cfg sub])
  qed
  show "store_inv ?R" if inv: "store_inv m"
  proof (cases rule: shape)
    case same
    then show ?thesis using inv by simp
  next
    case new
    show ?thesis using inv unfolding new by (auto simp: store_inv_def less_Suc_eq)
  qed
qed

lemma cap_inv_RemoveClient:
  shows "cap_inv m \<Longrightarrow> cap_inv (snd (RemoveClient m clientID reason))"
    and "store_inv m \<Longrightarrow> store_inv (snd (RemoveClient m clientID reason))"
proof -
  let ?R = "snd (RemoveClient m clientID reason)"
  have "?R = m \<or> (\<exists>s' r c l. heap m r = Some c \<and> ?R = (set_shard m (getShardID m clientID) s')\<lparr>
           globalConns := globalConns m - 1,
           heap := (heap m)(r \<mapsto> Close c reason),
           hook_log := l \<rparr>)"
  proof (cases "shard_at m (getShardID m clientID)")
    case None
    then show ?thesis by (simp add: RemoveClient_def)
  next
    case (Some s)
    show ?thesis
    proof (cases "map_of (clients s) clientID")
      case None
      then show ?thesis using Some set_shard_same [OF Some]
        by (simp add: RemoveClient_def Shard_RemoveClient_def)
    next
      case r: (Some r)
      show ?thesis
      proof (cases "heap m r")
        case None
        then show ?thesis using Some r by (simp add: RemoveClient_def Shard_RemoveClient_def)
      next
        case c: (Some c)
        show ?thesis
          using Some r c
          by (simp add: RemoveClient_def Shard_RemoveClient_def Let_def) blast
      qed
    qed
  qed
  then consider (same) "?R = m"
    | (closed) s' r c l where "heap m r = Some c"
        "?R = (set_shard m (getShardID m clientID) s')\<lparr>
           globalConns := globalConns m - 1,
           heap := (heap m)(r \<mapsto> Close c reason),
           hook_log := l \<rparr>"
    by blast
  note shape = this
  show "cap_inv ?R" if inv: "cap_inv m"
  proof (cases rule: shape)
    case same
    then show ?thesis using inv by simp
  next
    case closed
    have sub: "auth_set ?R u \<subseteq> auth_set m u" for u
      unfolding closed(2)
      by (auto simp: auth_set_def authenticated_as_def Close_def split: if_splits)
    have cfg: "config ?R = config m" unfolding closed(2) by simp
    show ?thesis by (rule cap_inv_subset [OF inv cfg sub])
  qed
  show "store_inv ?R" if inv: "store_inv m"
  proof (cases rule: shape)
    case same
    then show ?thesis using inv by simp
  next
    case closed
    show ?thesis using inv closed(1) unfolding closed(2) by (auto simp: store_inv_def)
  qed
qed

lemma cap_inv_AuthenticateClient:
  shows "cap_inv m \<Longrightarrow>
      cap_inv (snd (AuthenticateClient m clientID userID deviceID (UserRateLimiter_Allow m userID)))"
    and "store_inv m \<Longrightarrow>
      store_inv (snd (AuthenticateClient m clientID userID deviceID (UserRateLimiter_Allow m userID)))"
proof -
  let ?R = "snd (AuthenticateClient m clientID userID deviceID (UserRateLimiter_Allow m userID))"
  have "?R = m \<or> (\<exists>s' r c. heap m r = Some c \<and> UserRateLimiter_Allow m userID
          \<and> ?R = (set_shard m (getShardID m clientID) s')\<lparr>
                heap := (heap m)(r \<mapsto> SetAuthenticated c userID deviceID) \<rparr>)"
    by (auto simp: AuthenticateClient_def Shard_GetClient_def RegisterAuthenticatedClient_def Let_def
        split: option.splits)
  then consider (same) "?R = m"
    | (auth) s' r c where "heap m r = Some c" "UserRateLimiter_Allow m userID"
        "?R = (set_shard m (getShardID m clientID) s')\<lparr>
                heap := (heap m)(r \<mapsto> SetAuthenticated c userID deviceID) \<rparr>"
    by blast
  note shape = this
  show "cap_inv ?R" if inv: "cap_inv m"
  proof (cases rule: shape)
    case same
    then show ?thesis using inv by simp
  next
    case auth
    have cfg: "config ?R = config m" unfolding auth(3) by simp
    have other: "auth_set ?R u \<subseteq> auth_set m u" if "u \<noteq> userID" for u
      unfolding auth(3) using that
      by (auto simp: auth_set_def authenticated_as_def SetAuthenticated_def split: if_splits)
    have same: "auth_set ?R userID \<subseteq> insert r (auth_set m userID)"
      unfolding auth(3)
      by (auto simp: auth_set_def authenticated_as_def SetAuthenticated_def split: if_splits)
    show ?thesis
      unfolding cap_inv_def
    proof
      fix u
      show "int (card (auth_set ?R u)) \<le> max 0 (RateLimit_ConnectionsPerUser (config ?R))"
      proof (cases "u = userID")
        case False
        have "card (auth_set ?R u) \<le> card (auth_set m u)"
          by (rule card_mono) (simp_all add: other [OF False])
        then have "int (card (auth_set ?R u)) \<le> int (card (auth_set m u))" by simp
        also have "\<dots> \<le> max 0 (RateLimit_ConnectionsPerUser (config m))"
          using inv by (simp add: cap_inv_def)
        finally show ?thesis by (simp add: cfg)
      next
        case True
        have "card (auth_set ?R userID) \<le> card (insert r (auth_set m userID))"
          by (rule card_mono) (simp_all add: same)
        also have "\<dots> \<le> Suc (card (auth_set m userID))"
          by (simp add: card_insert_if)
        finally have "int (card (auth_set ?R userID)) \<le> int (card (auth_set m userID)) + 1"
          by simp
        moreover have "int (card (auth_set m userID)) < RateLimit_ConnectionsPerUser (config m)"
          using auth(2) by (simp add: UserRateLimiter_Allow_def length_open_sessions)
        ultimately show ?thesis using True by (simp add: cfg)
      qed
    qed
  qed
  show "store_inv ?R" if inv: "store_inv m"
  proof (cases rule: shape)
    case same
    then show ?thesis using inv by simp
  next
    case auth
    show ?thesis using inv auth(1) unfolding auth(3) by (auto simp: store_inv_def)
  qed
qed

lemma report_removed_rest:
  "config (report_removed m shard ids) = config m
   \<and> next_ref (report_removed m shard ids) = next_ref m"
  by (induction ids arbitrary: m) (auto simp: Let_def split: option.splits)

lemma cleanup_shards_rest:
  "config (snd (cleanup_shards timeout clock i ss m)) = config m
   \<and> next_ref (snd (cleanup_shards timeout clock i ss m)) = next_ref m"
proof (induction ss arbitrary: i m)
  case Nil
  then show ?case by simp
next
  case (Cons shard rest)
  show ?case
  proof (cases "CleanupInactive (heap m) shard timeout (clock i)")
    case (Inl e)
    then show ?thesis by simp
  next
    case (Inr res)
    obtain shard' removed where res: "res = (shard', removed)" by (cases res)
    show ?thesis
      using Inr res Cons.IH report_removed_rest by simp
  qed
qed

lemma cleanup_sweep_rest:
  "config (snd (cleanupInactiveConnections m clock)) = config m
   \<and> next_ref (snd (cleanupInactiveConnections m clock)) = next_ref m"
  by (simp add: cleanupInactiveConnections_def cleanup_shards_rest)

lemma auth_set_cleanup: "auth_set (snd (cleanupInactiveConnections m clock)) u = auth_set m u"
  using cleanup_sweep_never_closes_or_reports [of m clock] cleanup_sweep_rest [of m clock]
  by (simp add: auth_set_def)

lemma cap_inv_cleanup:
  shows "cap_inv m \<Longrightarrow> cap_inv (snd (cleanupInactiveConnections m clock))"
    and "store_inv m \<Longrightarrow> store_inv (snd (cleanupInactiveConnections m clock))"
  using cleanup_sweep_never_closes_or_reports [of m clock] cleanup_sweep_rest [of m clock]
  by (simp_all add: cap_inv_def store_inv_def auth_set_cleanup)

lemma capped_cap_inv: "capped cfg m \<Longrightarrow> cap_inv m \<and> store_inv m"
  by (induction rule: capped.induct)
    (simp_all add: cap_inv_NewManager cap_inv_RegisterHandlers cap_inv_AddConnection
      cap_inv_AuthenticateClient cap_inv_RemoveClient cap_inv_cleanup)

lemma capped_config: "capped cfg m \<Longrightarrow> config m = cfg"
proof (induction rule: capped.induct)
  case capped_new
  then show ?case by (simp add: NewManager_def Let_def)
next
  case (capped_handlers m connectHook disconnectHook)
  then show ?case by (simp add: RegisterHandlers_def)
next
  case (capped_add m clientID ip rateLimit burst now ipAllow)
  then show ?case
    by (auto simp: AddConnection_def Let_def set_shard_def split: option.splits sum.splits)
next
  case (capped_auth m clientID userID deviceID)
  then show ?case
    by (auto simp: AuthenticateClient_def Let_def set_shard_def split: option.splits sum.splits)
next
  case (capped_remove m clientID reason)
  then show ?case
    by (auto simp: RemoveClient_def Let_def set_shard_def split: option.splits sum.splits)
next
  case (capped_cleanup m clock)
  then show ?case by (simp add: cleanup_sweep_rest)
qed

lemma AuthenticateClient_refused:
  "GetClient m clientID = Inr (Some client) \<Longrightarrow>
   AuthenticateClient m clientID userID deviceID False = (Some ErrUserLimit, m)"
  by (auto simp: GetClient_def AuthenticateClient_def Let_def split: option.splits)

text \<open>
  C2, amended. With the user limiter modelled from the spec, at every reachable state
  and for every user, the number of sessions that are authenticated under the user and
  not closing is at most \<^verbatim>\<open>rate_limit.connections_per_user\<close> (at most 0 when that key is
  negative); the count is over every session of the store, whether a primary map
  still holds it or not. The limiter refuses a registration for a user who is at the
  cap; and when the limiter refuses, \<^verbatim>\<open>AuthenticateClient\<close> returns the user-limit error
  and leaves the whole state as it was: the session is not authenticated, not entered
  in the user index, and not closed.
\<close>

theorem user_cap_with_modelled_limiter:
  assumes "capped cfg m"
  shows "int (length (open_sessions m u)) \<le> max 0 (RateLimit_ConnectionsPerUser cfg)
       \<and> distinct (open_sessions m u)
       \<and> set (open_sessions m u) = {r. authenticated_as (heap m) u r}
       \<and> (RateLimit_ConnectionsPerUser cfg \<le> int (length (open_sessions m userID)) \<longrightarrow>
            \<not> UserRateLimiter_Allow m userID)
       \<and> (GetClient m clientID = Inr (Some client) \<and> \<not> UserRateLimiter_Allow m userID \<longrightarrow>
            AuthenticateClient m clientID userID deviceID (UserRateLimiter_Allow m userID)
              = (Some ErrUserLimit, m))"
proof -
  note cfg = capped_config [OF assms]
  note inv = capped_cap_inv [OF assms]
  have cap: "int (length (open_sessions m u)) \<le> max 0 (RateLimit_ConnectionsPerUser cfg)"
    using inv cfg by (simp add: cap_inv_def length_open_sessions)
  have dist: "distinct (open_sessions m u)"
    by (simp add: open_sessions_def)
  have all: "set (open_sessions m u) = {r. authenticated_as (heap m) u r}"
    using inv by (auto simp: open_sessions_def store_inv_def authenticated_as_def split: option.splits)
  have full: "RateLimit_ConnectionsPerUser cfg \<le> int (length (open_sessions m userID)) \<longrightarrow>
            \<not> UserRateLimiter_Allow m userID"
    using cfg by (simp add: UserRateLimiter_Allow_def)
  have rej: "GetClient m clientID = Inr (Some client) \<and> \<not> UserRateLimiter_Allow m userID \<longrightarrow>
            AuthenticateClient m clientID userID deviceID (UserRateLimiter_Allow m userID)
              = (Some ErrUserLimit, m)"
    using AuthenticateClient_refused [of m clientID client userID deviceID] by auto
  show ?thesis using cap dist all full rej by blast
qed

lemma capped_example_manager: "capped example_config example_manager"
  unfolding example_manager_def by (rule capped_handlers [OF capped_new])

lemma capped_example_m1: "capped example_config example_m1"
  unfolding example_m1_def
  by (rule capped_add [OF capped_example_manager]) (simp add: id_in_use_def example_manager_eq NewShard_def)

lemma capped_example_m2: "capped example_config example_m2"
  unfolding example_m2_def
  by (rule capped_add [OF capped_example_m1]) (simp add: id_in_use_def example_m1_eq NewShard_def)

lemma upt_2: "[0..<2] = [0, Suc 0]"
  by (simp add: upt_rec)

lemma Allow_example_m2: "UserRateLimiter_Allow example_m2 ''u1''"
  by (simp add: UserRateLimiter_Allow_def open_sessions_def authenticated_as_def
      example_m2_eq NewClient_def example_config_def setDefaults_def upt_2)

lemma capped_example_m3: "capped example_config example_m3"
  using capped_auth [OF capped_example_m2, of "''c1''" "''u1''" "''d1''"]
  by (simp add: example_m3_def Allow_example_m2)

lemma capped_example_swept: "capped example_config example_swept"
  unfolding example_swept_def by (rule capped_cleanup [OF capped_example_m3])

lemma open_sessions_example_m3: "open_sessions example_m3 ''u1'' = [0]"
  by (simp add: open_sessions_def authenticated_as_def example_m3_eq
      SetAuthenticated_def NewClient_def upt_2)

lemma open_sessions_example_swept: "open_sessions example_swept ''u1'' = [0]"
  using cleanup_sweep_never_closes_or_reports [of example_m3 "\<lambda>i. 122 * second"]
    cleanup_sweep_rest [of example_m3 "\<lambda>i. 122 * second"] open_sessions_example_m3
  by (simp add: open_sessions_def example_swept_def)

lemma example_swept_eq:
  "example_swept =
     example_m3\<lparr>
        shards := [(NewShard 0)\<lparr> clients := [(''c2'', 1)], userClients := [],
                    stats := (stats (NewShard 0))\<lparr> TotalConnections := 2, ActiveConnections := 1,
                       LastCleanup := 122 * second \<rparr> \<rparr>],
        globalConns := 1 \<rparr>"
  by (simp add: example_swept_def example_m3_eq cleanupInactiveConnections_def CleanupInactive_def
      delete_user_mapping_def SetAuthenticated_def NewClient_def NewShard_def Let_def
      Shard_GetClient_def example_config_def setDefaults_def second_def)

lemma not_Allow_example_swept: "\<not> UserRateLimiter_Allow example_swept ''u1''"
proof -
  have "config example_swept = config example_m3"
    using cleanup_sweep_rest [of example_m3 "\<lambda>i. 122 * second"] by (simp add: example_swept_def)
  then have "RateLimit_ConnectionsPerUser (config example_swept) = 1"
    by (simp add: example_m3_eq example_config_def setDefaults_def)
  then show ?thesis
    by (simp add: UserRateLimiter_Allow_def open_sessions_example_swept)
qed

theorem user_cap_with_modelled_limiter_witness:
  "capped example_config example_swept
   \<and> map_of (clients (shards example_swept ! 0)) ''c1'' = None
   \<and> open_sessions example_swept ''u1'' = [0]
   \<and> RateLimit_ConnectionsPerUser example_config = 1
   \<and> \<not> UserRateLimiter_Allow example_swept ''u1''
   \<and> GetClient example_swept ''c2'' = Inr (Some 1)
   \<and> AuthenticateClient example_swept ''c2'' ''u1'' ''d2''
        (UserRateLimiter_Allow example_swept ''u1'')
       = (Some ErrUserLimit, example_swept)"
proof -
  have g: "GetClient example_swept ''c2'' = Inr (Some 1)"
    by (simp add: GetClient_def shard_at_def Shard_GetClient_def example_swept_eq example_m3_eq)
  have c: "RateLimit_ConnectionsPerUser example_config = 1"
    by (simp add: example_config_def setDefaults_def)
  have gone: "map_of (clients (shards example_swept ! 0)) ''c1'' = None"
    by (simp add: example_swept_eq)
  show ?thesis
    using user_cap_with_modelled_limiter [OF capped_example_swept, of "''u1''" "''u1''" "''c2''" 1 "''d2''"]
      capped_example_swept not_Allow_example_swept g c gone
    by (simp add: open_sessions_example_swept)
qed

text \<open>
  C2, as the claim states it, fails on the code of \<^verbatim>\<open>AuthenticateClient\<close>: a refused
  registration closes nothing. In \<open>example_m3\<close> the session \<open>c2\<close> (address 1) is refused
  by the limiter: the call returns the user-limit error, the state is unchanged, and the
  session is neither closing nor authenticated, its socket is open, and no hook is
  called.
\<close>

theorem user_limit_close_counterexample:
  "GetClient example_m3 ''c2'' = Inr (Some 1)
   \<and> AuthenticateClient example_m3 ''c2'' ''u1'' ''d2'' False = (Some ErrUserLimit, example_m3)
   \<and> map_option closing (heap example_m3 1) = Some False
   \<and> map_option Conn_closed (heap example_m3 1) = Some False
   \<and> map_option authenticated (heap example_m3 1) = Some False
   \<and> hook_log example_m3 = [ConnectCall 0, ConnectCall 1]"
proof -
  have g: "GetClient example_m3 ''c2'' = Inr (Some 1)"
    by (simp add: GetClient_def shard_at_def Shard_GetClient_def example_m3_eq)
  show ?thesis
    using AuthenticateClient_refused [OF g, of "''u1''" "''d2''"] g
    by (simp add: example_m3_eq NewClient_def)
qed

subsection \<open>Tokens\<close>

lemma NewNumericDate_le: "NewNumericDate t \<le> t"
  by (simp add: NewNumericDate_def TimePrecision_def second_def)

lemma NewNumericDate_gt: "t - second < NewNumericDate t"
proof -
  have "t mod second < second" by (simp add: second_def)
  then show ?thesis by (simp add: NewNumericDate_def TimePrecision_def)
qed

lemma ValidateToken_accepts_only:
  "ValidateToken a now tokenString = Inr c \<Longrightarrow> Issuer c = issuer a \<and> user_id c \<noteq> []"
  by (auto simp: ValidateToken_def split: option.splits if_splits)

lemma json_string_from_valid: "ValidString_from k s \<Longrightarrow> json_string_from k s = s"
  by (induction k s rule: json_string_from.induct) (auto split: nat.splits)

lemma json_string_valid: "ValidString s \<Longrightarrow> json_string s = s"
  by (simp add: ValidString_def json_string_def json_string_from_valid)

lemma json_string_empty: "json_string s = [] \<longleftrightarrow> s = []"
  by (cases s) (simp_all add: json_string_def RuneError_bytes_def split: nat.splits)

lemma json_string_issuer: "json_string ''websocket-gateway'' = ''websocket-gateway''"
  by (simp add: json_string_def DecodeRuneInString_size_def)

text \<open>
  C10, amended. For every non-empty user id and every device id, a token generated at
  the instant \<open>now\<close> is accepted by \<^verbatim>\<open>ValidateToken\<close> at every instant \<open>now'\<close> that is
  not before the token's not-before date (\<open>now\<close> truncated to the second) and before its
  expiry date (\<open>now + expiry\<close> truncated to the second); in particular the token is
  accepted at the instant it was generated when the configured expiry is at least one
  second. The claims returned carry the user id and the device id as JSON carries
  them: unchanged when they are valid UTF-8, with U+FFFD for every byte that is not
  part of a well-formed sequence otherwise. At any other instant the generated token
  is rejected. \<^verbatim>\<open>ValidateToken\<close> accepts no token whose issuer differs from the
  authenticator's, which is \<open>websocket-gateway\<close>, and no token whose \<open>user_id\<close> claim is
  empty.
\<close>

theorem token_roundtrip:
  "(userID \<noteq> [] \<and> NewNumericDate now \<le> now'
      \<and> now' < NewNumericDate (now + expiry (NewAuthenticator cfg)) \<longrightarrow>
      (\<exists>c. ValidateToken (NewAuthenticator cfg) now'
              (GenerateToken itoa (NewAuthenticator cfg) now userID deviceID) = Inr c
          \<and> user_id c = json_string userID \<and> device_id c = json_string deviceID
          \<and> (ValidString userID \<longrightarrow> user_id c = userID)
          \<and> (ValidString deviceID \<longrightarrow> device_id c = deviceID)))
   \<and> (userID \<noteq> [] \<and> second \<le> expiry (NewAuthenticator cfg) \<longrightarrow>
      (\<exists>c. ValidateToken (NewAuthenticator cfg) now
              (GenerateToken itoa (NewAuthenticator cfg) now userID deviceID) = Inr c
          \<and> user_id c = json_string userID \<and> device_id c = json_string deviceID
          \<and> (ValidString userID \<longrightarrow> user_id c = userID)
          \<and> (ValidString deviceID \<longrightarrow> device_id c = deviceID)))
   \<and> (now' < NewNumericDate now \<or> NewNumericDate (now + expiry a) \<le> now' \<longrightarrow>
      ValidateToken a now' (GenerateToken itoa a now userID deviceID) = Inl ErrInvalidToken)
   \<and> (ValidateToken a now' tokenString = Inr claims \<longrightarrow>
        Issuer claims = issuer a \<and> user_id claims \<noteq> [])
   \<and> issuer (NewAuthenticator cfg) = ''websocket-gateway''"
proof -
  let ?A = "NewAuthenticator cfg"
  have ok: "\<exists>c. ValidateToken ?A t (GenerateToken itoa ?A now userID deviceID) = Inr c
          \<and> user_id c = json_string userID \<and> device_id c = json_string deviceID
          \<and> (ValidString userID \<longrightarrow> user_id c = userID)
          \<and> (ValidString deviceID \<longrightarrow> device_id c = deviceID)"
    if "userID \<noteq> []" "NewNumericDate now \<le> t" "t < NewNumericDate (now + expiry ?A)" for t
    using that json_string_empty [of userID]
    by (simp add: ValidateToken_def GenerateToken_def SignedString_def ParseWithClaims_def
        time_valid_def Marshal_Claims_def NewAuthenticator_def json_string_issuer
        json_string_valid)
  have now_ok: "now < NewNumericDate (now + expiry ?A)" if "second \<le> expiry ?A"
    using NewNumericDate_gt [of "now + expiry ?A"] that by simp
  have bad: "ValidateToken a now' (GenerateToken itoa a now userID deviceID) = Inl ErrInvalidToken"
    if "now' < NewNumericDate now \<or> NewNumericDate (now + expiry a) \<le> now'"
    using that
    by (auto simp: ValidateToken_def GenerateToken_def SignedString_def ParseWithClaims_def
        time_valid_def Marshal_Claims_def)
  have iss: "issuer ?A = ''websocket-gateway''" by (simp add: NewAuthenticator_def)
  show ?thesis
    using ok [of now'] ok [of now] now_ok NewNumericDate_le [of now] bad
      ValidateToken_accepts_only [of a now' tokenString claims] iss
    by blast
qed

theorem token_roundtrip_witness:
  "second \<le> expiry hour_authenticator
   \<and> ValidString ''u1'' \<and> ValidString ''d1''
   \<and> issuer hour_authenticator = ''websocket-gateway''
   \<and> map_sum id user_id (ValidateToken hour_authenticator 1500000000
        (GenerateToken example_itoa hour_authenticator 1500000000 ''u1'' ''d1'')) = Inr ''u1''
   \<and> map_sum id device_id (ValidateToken hour_authenticator 1500000000
        (GenerateToken example_itoa hour_authenticator 1500000000 ''u1'' ''d1'')) = Inr ''d1''"
proof -
  let ?cfg = "example_config\<lparr> Auth_TokenExpiry := 3600 * second \<rparr>"
  have h: "hour_authenticator = NewAuthenticator ?cfg" by (simp add: hour_authenticator_def)
  have e: "second \<le> expiry (NewAuthenticator ?cfg)"
    by (simp add: NewAuthenticator_def second_def)
  have u: "''u1'' \<noteq> []" by simp
  have v: "ValidString ''u1''" "ValidString ''d1''"
    by (simp_all add: ValidString_def DecodeRuneInString_size_def)
  from token_roundtrip [of "''u1''" 1500000000 1500000000 ?cfg example_itoa "''d1''"] e u
  obtain c where "ValidateToken (NewAuthenticator ?cfg) 1500000000
        (GenerateToken example_itoa (NewAuthenticator ?cfg) 1500000000 ''u1'' ''d1'') = Inr c"
    "ValidString ''u1'' \<longrightarrow> user_id c = ''u1''" "ValidString ''d1'' \<longrightarrow> device_id c = ''d1''"
    by blast
  then show ?thesis
    using e v unfolding h by (simp add: NewAuthenticator_def)
qed

text \<open>
  C10, as the claim states it, fails: a positive expiry is not enough, and neither is a
  non-empty user id. With an expiry of one hour, a token generated at 0 s is rejected
  at 7200 s. With an expiry of one nanosecond, a token generated at 1.5 s is rejected
  at that same instant, since its expiry date is truncated to 1 s. And the token
  generated for the user id that is the single byte FF is accepted with the user id
  EF BF BD.
\<close>

theorem token_expiry_counterexample:
  "0 < expiry hour_authenticator
   \<and> ValidateToken hour_authenticator (7200 * second)
        (GenerateToken example_itoa hour_authenticator 0 ''u1'' ''d1'') = Inl ErrInvalidToken
   \<and> 0 < expiry nanosecond_authenticator
   \<and> ValidateToken nanosecond_authenticator 1500000000
        (GenerateToken example_itoa nanosecond_authenticator 1500000000 ''u1'' ''d1'')
       = Inl ErrInvalidToken
   \<and> map_sum id user_id (ValidateToken hour_authenticator 0
        (GenerateToken example_itoa hour_authenticator 0 [CHR 0xFF] ''d1''))
       = Inr [CHR 0xEF, CHR 0xBF, CHR 0xBD]
   \<and> [CHR 0xEF, CHR 0xBF, CHR 0xBD] \<noteq> [CHR 0xFF]"
  by (simp add: hour_authenticator_def nanosecond_authenticator_def NewAuthenticator_def
      ValidateToken_def GenerateToken_def SignedString_def ParseWithClaims_def time_valid_def
      NewNumericDate_def TimePrecision_def second_def Marshal_Claims_def json_string_def
      DecodeRuneInString_size_def RuneError_bytes_def)

end
